theory Spec2Isabelle
  imports
    Complex_Main
    "HOL-Library.Sublist"
    "HOL-Library.Char_ord"
    "HOL-Library.List_Lexorder"
    "HOL-Library.Product_Lexorder"
    "HOL-Library.Multiset"
begin

section \<open>Python strings\<close>

text \<open>
  A Python \<open>str\<close> is modelled as a \<open>string\<close> whose characters are the code points
  below 256 (Latin-1).  The helpers below follow the behaviour of the \<open>str\<close> methods the
  detectors call, restricted to that range.
\<close>

definition py_isspace :: "char \<Rightarrow> bool" where
  \<comment> \<open>\<open>str.isspace\<close> on one character: TAB..CR, FS..US, space, NEL, NBSP.\<close>
  "py_isspace c =
     (let n = (of_char c :: nat)
      in (9 \<le> n \<and> n \<le> 13) \<or> (28 \<le> n \<and> n \<le> 32) \<or> n = 133 \<or> n = 160)"

definition py_strip :: "string \<Rightarrow> string" where
  \<comment> \<open>\<open>s.strip()\<close>\<close>
  "py_strip s = rev (dropWhile py_isspace (rev (dropWhile py_isspace s)))"

definition py_lower_char :: "char \<Rightarrow> char" where
  "py_lower_char c =
     (let n = (of_char c :: nat)
      in if (65 \<le> n \<and> n \<le> 90) \<or> (192 \<le> n \<and> n \<le> 222 \<and> n \<noteq> 215)
         then char_of (n + 32) else c)"

definition py_lower :: "string \<Rightarrow> string" where
  \<comment> \<open>\<open>s.lower()\<close>\<close>
  "py_lower s = map py_lower_char s"

fun py_in :: "string \<Rightarrow> string \<Rightarrow> bool" where
  \<comment> \<open>\<open>needle in hay\<close> for strings: \<open>py_in needle hay\<close>\<close>
  "py_in needle [] = (needle = [])"
| "py_in needle (c # cs) = (prefix needle (c # cs) \<or> py_in needle cs)"

definition startswith :: "string \<Rightarrow> string \<Rightarrow> bool" where
  \<comment> \<open>\<open>s.startswith(p)\<close>\<close>
  "startswith s p = prefix p s"

definition py_linebreak :: "char \<Rightarrow> bool" where
  \<comment> \<open>the one-character line boundaries of \<open>str.splitlines\<close>\<close>
  "py_linebreak c =
     (let n = (of_char c :: nat)
      in (10 \<le> n \<and> n \<le> 13) \<or> (28 \<le> n \<and> n \<le> 30) \<or> n = 133)"

fun splitlines_from :: "string \<Rightarrow> string \<Rightarrow> string list" where
  \<comment> \<open>\<open>cur\<close> is the current line, reversed\<close>
  "splitlines_from cur [] = (if cur = [] then [] else [rev cur])"
| "splitlines_from cur [c] =
     (if py_linebreak c then [rev cur] else [rev (c # cur)])"
| "splitlines_from cur (c # d # cs) =
     (if c = CHR 0x0D \<and> d = CHR 0x0A then rev cur # splitlines_from [] cs
      else if py_linebreak c then rev cur # splitlines_from [] (d # cs)
      else splitlines_from (c # cur) (d # cs))"

definition splitlines :: "string \<Rightarrow> string list" where
  \<comment> \<open>\<open>s.splitlines()\<close>\<close>
  "splitlines s = splitlines_from [] s"

fun split_from :: "char \<Rightarrow> string \<Rightarrow> string \<Rightarrow> string list" where
  "split_from sep cur [] = [rev cur]"
| "split_from sep cur (c # cs) =
     (if c = sep then rev cur # split_from sep [] cs else split_from sep (c # cur) cs)"

definition py_split :: "string \<Rightarrow> char \<Rightarrow> string list" where
  \<comment> \<open>\<open>s.split(sep)\<close> for a one-character separator\<close>
  "py_split s sep = split_from sep [] s"

definition truthy :: "string \<Rightarrow> bool" where
  \<comment> \<open>the truth value of a string: non-empty\<close>
  "truthy s = (s \<noteq> [])"

definition str_or :: "string \<Rightarrow> string \<Rightarrow> string" where
  \<comment> \<open>\<open>a or b\<close> on strings\<close>
  "str_or a b = (if truthy a then a else b)"

section \<open>Exceptions and the host\<close>

text \<open>
  The exceptions a host facility may raise, all of them subclasses of Python's
  \<open>Exception\<close>.  \<open>OSError\<close> stands for an \<open>OSError\<close> that is neither a
  \<open>FileNotFoundError\<close> nor a \<open>PermissionError\<close>; \<open>OtherException\<close> for any other
  subclass of \<open>Exception\<close>.  A function that may raise returns \<open>exn + 'a\<close>, with
  \<open>Inl\<close> the exception that leaves it.
\<close>

datatype exn =
    TimeoutExpired | CalledProcessError | FileNotFoundError | PermissionError | OSError
  | ValueError | AttributeError | KeyError | OverflowError | OtherException

text \<open>
  What the code reads from outside itself.  Each field is the outcome of one host facility
  or library call; a facility that may raise has an outcome of type \<open>exn + 'a\<close>.
\<close>

record partition =
  device :: string
  mountpoint :: string
  fstype :: string
  opts :: string

record sbattery =
  b_percent :: real
  secsleft :: int
  power_plugged :: "bool option"

record host =
  sys_platform :: string                          \<comment> \<open>\<open>sys.platform\<close>\<close>
  WMI_AVAILABLE :: bool                           \<comment> \<open>whether \<open>import wmi\<close> succeeded\<close>
  which :: "string \<Rightarrow> bool"                        \<comment> \<open>\<open>shutil.which(tool)\<close> is not \<open>None\<close>\<close>
  check_output :: "string \<Rightarrow> int \<Rightarrow> exn + string"   \<comment> \<open>\<open>subprocess.check_output(cmd, shell=True, text=True, timeout=t)\<close>\<close>
  py_float :: "string \<Rightarrow> real option"              \<comment> \<open>the builtin \<open>float(s)\<close>; \<open>None\<close> is \<open>ValueError\<close>\<close>
  py_int :: "string \<Rightarrow> int option"                 \<comment> \<open>the builtin \<open>int(s)\<close>; \<open>None\<close> is \<open>ValueError\<close>\<close>
  now_iso :: string                               \<comment> \<open>\<open>datetime.now().isoformat()\<close>\<close>
  platform_system :: string
  uname_release :: string
  uname_version :: string
  uname_machine :: string
  uname_processor :: string
  platform_processor :: string
  platform_platform :: string
  platform_python_version :: string
  now_us :: int                                   \<comment> \<open>\<open>datetime.now()\<close>, in microseconds\<close>
  boot_us :: "exn + int"                          \<comment> \<open>\<open>datetime.fromtimestamp(psutil.boot_time())\<close>, in microseconds\<close>
  cpu_count :: "bool \<Rightarrow> exn + nat option"          \<comment> \<open>\<open>psutil.cpu_count(logical=b)\<close>\<close>
  cpu_freq :: "exn + (real \<times> real) option"        \<comment> \<open>\<open>psutil.cpu_freq()\<close>: current and max\<close>
  cpu_percent :: "exn + real"                     \<comment> \<open>\<open>psutil.cpu_percent(interval=1)\<close>\<close>
  sensors_temperatures :: "exn + (string \<times> real list) list"
      \<comment> \<open>\<open>psutil.sensors_temperatures()\<close>: per sensor group, the \<open>current\<close> readings\<close>
  virtual_memory :: "exn + int \<times> int \<times> int \<times> real" \<comment> \<open>total, available, used, percent\<close>
  swap_memory :: "exn + int \<times> int \<times> real"         \<comment> \<open>total, used, percent\<close>
  disk_partitions :: "exn + partition list"       \<comment> \<open>\<open>psutil.disk_partitions(all=False)\<close>\<close>
  disk_usage :: "string \<Rightarrow> exn + int \<times> int \<times> int \<times> real"
      \<comment> \<open>\<open>psutil.disk_usage(mountpoint)\<close>: total, used, free, percent\<close>
  read_rotational :: "string \<Rightarrow> exn + string"
      \<comment> \<open>opening and reading \<open>/sys/block/<dev>/queue/rotational\<close>\<close>
  sensors_battery :: "exn + sbattery option"       \<comment> \<open>\<open>psutil.sensors_battery()\<close>\<close>
  wmi_video_controllers :: "exn + (string option \<times> int option) list"
      \<comment> \<open>\<open>wmi.WMI().Win32_VideoController()\<close>: \<open>Name\<close> and \<open>AdapterRAM\<close> of each\<close>
  wmi_base_boards :: "exn + (string option \<times> string option) list"
      \<comment> \<open>\<open>wmi.WMI().Win32_BaseBoard()\<close>: \<open>Manufacturer\<close> and \<open>Product\<close> of each\<close>

section \<open>Python floats\<close>

text \<open>
  A true division of two integers, \<open>a / b\<close>, gives the double nearest to the exact
  quotient, a tie going to the even mantissa.  A finite non-negative double is kept as a
  pair \<open>(m, k)\<close> that stands for \<open>m / 2 ^ k\<close> (for \<open>m * 2 ^ (- k)\<close> when
  \<open>k\<close> is negative); the mantissa \<open>m\<close> of a normal double has 53 bits.  The divisors
  in the code modelled here are positive constants.
\<close>

type_synonym double = "nat \<times> int"

function ilog2 :: "nat \<Rightarrow> nat" where
  \<comment> \<open>the integer part of the binary logarithm, for \<open>n \<ge> 1\<close>\<close>
  "ilog2 n = (if n < 2 then 0 else Suc (ilog2 (n div 2)))"
  by pat_completeness auto
termination
  by (relation "measure id") auto

declare ilog2.simps [simp del]

definition clog2 :: "nat \<Rightarrow> nat" where
  \<comment> \<open>the binary logarithm rounded up, for \<open>n \<ge> 1\<close>\<close>
  "clog2 n = (if n \<le> 1 then 0 else Suc (ilog2 (n - 1)))"

definition log2_floor :: "nat \<Rightarrow> nat \<Rightarrow> int" where
  \<comment> \<open>the integer \<open>L\<close> with \<open>2 ^ L \<le> a / b < 2 ^ (L + 1)\<close>, for positive \<open>a\<close> and \<open>b\<close>\<close>
  "log2_floor a b =
     (if b \<le> a then int (ilog2 (a div b)) else - int (clog2 ((b + a - 1) div a)))"

definition round_half_even :: "nat \<Rightarrow> nat \<Rightarrow> nat" where
  \<comment> \<open>the integer nearest to \<open>n / d\<close>, a tie going to the even one\<close>
  "round_half_even n d =
     (let q = n div d; r = n mod d
      in if 2 * r > d \<or> (2 * r = d \<and> odd q) then q + 1 else q)"

definition to_double :: "nat \<Rightarrow> nat \<Rightarrow> double" where
  \<comment> \<open>the double nearest to \<open>a / b\<close>: 53 bits from the leading one, and no finer than
     \<open>2 ^ (- 1074)\<close>\<close>
  "to_double a b =
     (if a = 0 then (0, 0)
      else (let k = min (52 - log2_floor a b) 1074
            in if 0 \<le> k then (round_half_even (a * 2 ^ nat k) b, k)
               else (round_half_even a (b * 2 ^ nat (- k)), k)))"

definition overflows :: "nat \<Rightarrow> nat \<Rightarrow> bool" where
  \<comment> \<open>the quotient rounds to \<open>2 ^ 1024\<close> or beyond, past the largest double\<close>
  "overflows a b =
     (a \<noteq> 0 \<and> (1023 < log2_floor a b \<or>
                 (log2_floor a b = 1023 \<and> 2 ^ 53 \<le> fst (to_double a b))))"

definition int_of_double :: "double \<Rightarrow> nat" where
  \<comment> \<open>\<open>int(x)\<close> for a non-negative double: the integer part\<close>
  "int_of_double x =
     (case x of (m, k) \<Rightarrow> if 0 \<le> k then m div 2 ^ nat k else m * 2 ^ nat (- k))"

section \<open>BaseDetector\<close>

definition run_command :: "host \<Rightarrow> string \<Rightarrow> int \<Rightarrow> exn + string" where
  \<comment> \<open>the second handler also writes a debug log line, which is not modelled\<close>
  "run_command h cmd timeout =
     (case check_output h cmd timeout of
        Inr result \<Rightarrow> Inr (py_strip result)
      | Inl e \<Rightarrow>
          if e = TimeoutExpired \<or> e = CalledProcessError \<or> e = FileNotFoundError then Inr []
          else Inr [])"

definition and_then :: "exn + 'a \<Rightarrow> ('a \<Rightarrow> exn + 'b) \<Rightarrow> exn + 'b" where
  \<comment> \<open>sequencing: an exception raised by the first step leaves the function\<close>
  "and_then m f = (case m of Inl e \<Rightarrow> Inl e | Inr x \<Rightarrow> f x)"

section \<open>OSDetector\<close>

record os_info =
  os_system :: string
  os_release :: string
  os_version :: string
  os_machine :: string
  os_platform :: string
  os_python_version :: string


text \<open>
  A \<open>datetime.timedelta\<close> is kept normalised: \<open>0 \<le> seconds < 86400\<close> and
  \<open>0 \<le> microseconds < 1000000\<close>, the sign carried by \<open>days\<close>.
\<close>

record timedelta =
  td_days :: int
  td_seconds :: int
  td_microseconds :: int

definition timedelta_of :: "int \<Rightarrow> timedelta" where
  \<comment> \<open>the difference of two datetimes, from its length in microseconds\<close>
  "timedelta_of us =
     \<lparr> td_days = us div 86400000000,
       td_seconds = (us mod 86400000000) div 1000000,
       td_microseconds = us mod 1000000 \<rparr>"

definition int_total_seconds :: "timedelta \<Rightarrow> int" where
  \<comment> \<open>\<open>int(td.total_seconds())\<close>: \<open>total_seconds\<close> divides the length in
     microseconds by \<open>10 ** 6\<close> as a double, and \<open>int\<close> drops the fraction.  The length
     of a \<open>timedelta\<close> is far inside the range of a double.\<close>
  "int_total_seconds td =
     (let us = (td_days td * 86400 + td_seconds td) * 1000000 + td_microseconds td
      in if 0 \<le> us then int (int_of_double (to_double (nat us) 1000000))
         else - int (int_of_double (to_double (nat (- us)) 1000000)))"

record uptime_info =
  days :: int
  hours :: int
  minutes :: int
  total_seconds :: int

definition get_uptime :: "host \<Rightarrow> exn + uptime_info" where
  "get_uptime h =
     and_then (boot_us h) (\<lambda>boot.
       let uptime = timedelta_of (now_us h - boot)
       in Inr \<lparr> days = td_days uptime,
                 hours = td_seconds uptime div 3600,
                 minutes = (td_seconds uptime mod 3600) div 60,
                 total_seconds = int_total_seconds uptime \<rparr>)"

section \<open>CPUDetector\<close>

record cpu_info =
  cpu_name :: string
  cores_physical :: nat
  cores_logical :: nat
  current_freq_mhz :: real
  max_freq_mhz :: real
  usage_percent :: real
  cpu_temperature_c :: "real option"

fun preferred_reading :: "string list \<Rightarrow> (string \<times> real list) list \<Rightarrow> real option" where
  \<comment> \<open>the loop over the preferred sensor names\<close>
  "preferred_reading [] temps = None"
| "preferred_reading (name # names) temps =
     (case map_of temps name of
        Some (r # rs) \<Rightarrow> Some r
      | _ \<Rightarrow> preferred_reading names temps)"

fun first_reading :: "(string \<times> real list) list \<Rightarrow> real option" where
  \<comment> \<open>the loop over \<open>temps.values()\<close>\<close>
  "first_reading [] = None"
| "first_reading ((name, []) # temps) = first_reading temps"
| "first_reading ((name, r # rs) # temps) = Some r"

definition CPUDetector_get_temperature :: "host \<Rightarrow> exn + real option" where
  "CPUDetector_get_temperature h =
     (case sensors_temperatures h of
        Inl e \<Rightarrow> if e = AttributeError \<or> e = KeyError then Inr None else Inl e
      | Inr temps \<Rightarrow>
          if temps = [] then Inr None
          else (case preferred_reading [''coretemp'', ''cpu_thermal'', ''k10temp'', ''zenpower''] temps of
                  Some r \<Rightarrow> Inr (Some r)
                | None \<Rightarrow> Inr (first_reading temps)))"

definition name_windows :: "host \<Rightarrow> string \<Rightarrow> exn + string" where
  \<comment> \<open>the \<open>wmic\<close> step of the name chain\<close>
  "name_windows h nm =
     (if \<not> truthy nm \<and> startswith (sys_platform h) ''win'' then
        and_then (run_command h ''wmic cpu get name'' 5) (\<lambda>out.
          if truthy out then
            (let lines = splitlines out
             in Inr (if length lines > 1 then py_strip (last lines) else ''Unknown''))
          else Inr out)
      else Inr nm)"

definition name_darwin :: "host \<Rightarrow> string \<Rightarrow> exn + string" where
  "name_darwin h nm =
     (if sys_platform h = ''darwin'' \<and> \<not> truthy nm then
        run_command h ''sysctl -n machdep.cpu.brand_string'' 5
      else Inr nm)"

definition name_linux :: "host \<Rightarrow> string \<Rightarrow> exn + string" where
  "name_linux h nm =
     (if \<not> truthy nm \<and> startswith (sys_platform h) ''linux'' then
        run_command h ''cat /proc/cpuinfo | grep 'model name' | head -1 | cut -d':' -f2'' 5
      else Inr nm)"

definition CPUDetector_detect :: "host \<Rightarrow> exn + cpu_info" where
  "CPUDetector_detect h =
     and_then (name_windows h (str_or (platform_processor h) (uname_processor h))) (\<lambda>n1.
     and_then (name_darwin h n1) (\<lambda>n2.
     and_then (name_linux h n2) (\<lambda>name.
     and_then (cpu_count h False) (\<lambda>physical.
     and_then (cpu_count h True) (\<lambda>logical.
     and_then (cpu_freq h) (\<lambda>freq.
     and_then (cpu_percent h) (\<lambda>percent.
     and_then (CPUDetector_get_temperature h) (\<lambda>temperature.
       Inr \<lparr> cpu_name = str_or (py_strip name) ''Unknown CPU'',
             cores_physical = (case physical of None \<Rightarrow> 0 | Some n \<Rightarrow> n),
             cores_logical = (case logical of None \<Rightarrow> 0 | Some n \<Rightarrow> n),
             current_freq_mhz = (case freq of None \<Rightarrow> 0 | Some (cur, mx) \<Rightarrow> cur),
             max_freq_mhz = (case freq of None \<Rightarrow> 0 | Some (cur, mx) \<Rightarrow> mx),
             usage_percent = percent,
             cpu_temperature_c = temperature \<rparr>))))))))"

section \<open>GPUDetector\<close>

record gpu_info =
  vendor :: string
  gpu_name :: string
  vram_total_gb :: real
  vram_used_gb :: real
  utilization_percent :: real
  gpu_temperature_c :: "real option"

definition nvidia_cmd :: string where
  "nvidia_cmd = ''nvidia-smi --query-gpu=name,memory.total,memory.used,utilization.gpu,temperature.gpu --format=csv,noheader,nounits''"

definition nvidia_line :: "host \<Rightarrow> string \<Rightarrow> gpu_info option" where
  \<comment> \<open>one round of the loop over the output lines: the record appended, or \<open>None\<close>
     where the line is too short or a \<open>ValueError\<close> is caught\<close>
  "nvidia_line h line =
     (let parts = map py_strip (py_split line CHR '','')
      in if length parts \<ge> 5 then
           (case (py_float h (parts ! 1), py_float h (parts ! 2), py_float h (parts ! 3)) of
              (Some tot, Some used, Some util) \<Rightarrow>
                if parts ! 4 \<noteq> ''[N/A]'' then
                  (case py_float h (parts ! 4) of
                     Some t \<Rightarrow>
                       Some \<lparr> vendor = ''NVIDIA'', gpu_name = parts ! 0,
                              vram_total_gb = tot / 1024, vram_used_gb = used / 1024,
                              utilization_percent = util, gpu_temperature_c = Some t \<rparr>
                   | None \<Rightarrow> None)
                else
                  Some \<lparr> vendor = ''NVIDIA'', gpu_name = parts ! 0,
                         vram_total_gb = tot / 1024, vram_used_gb = used / 1024,
                         utilization_percent = util, gpu_temperature_c = None \<rparr>
            | _ \<Rightarrow> None)
         else None)"

definition GPUDetector_detect_nvidia :: "host \<Rightarrow> exn + gpu_info list" where
  "GPUDetector_detect_nvidia h =
     (if \<not> which h ''nvidia-smi'' then Inr []
      else and_then (run_command h nvidia_cmd 5) (\<lambda>output.
             if \<not> truthy output then Inr []
             else Inr (List.map_filter (nvidia_line h) (splitlines output))))"

fun amd_name :: "string list \<Rightarrow> string" where
  \<comment> \<open>the loop over the lines of the product-name output, from \<open>gpu_name = "AMD GPU"\<close>\<close>
  "amd_name [] = ''AMD GPU''"
| "amd_name (line # ls) =
     (if py_in ''GPU'' line \<or> py_in ''Card'' line then
        (let parts = py_split line CHR '':''
         in if length parts > 1 then py_strip (parts ! 1) else amd_name ls)
      else amd_name ls)"

definition GPUDetector_detect_amd :: "host \<Rightarrow> exn + gpu_info list" where
  "GPUDetector_detect_amd h =
     (if \<not> which h ''rocm-smi'' then Inr []
      else and_then (run_command h ''rocm-smi --showproductname'' 5) (\<lambda>name_output.
           and_then (run_command h ''rocm-smi --showmeminfo vram'' 5) (\<lambda>_.
           and_then (run_command h ''rocm-smi --showtemp'' 5) (\<lambda>_.
           and_then (run_command h ''rocm-smi --showuse'' 5) (\<lambda>_.
             if truthy name_output then
               Inr [\<lparr> vendor = ''AMD'', gpu_name = amd_name (splitlines name_output),
                      vram_total_gb = 0, vram_used_gb = 0,
                      utilization_percent = 0, gpu_temperature_c = None \<rparr>]
             else Inr [])))))"

definition GPUDetector_detect_intel :: "host \<Rightarrow> exn + gpu_info list" where
  "GPUDetector_detect_intel h =
     (if which h ''sycl-ls'' then
        and_then (run_command h ''sycl-ls'' 5) (\<lambda>output.
          if py_in ''Intel'' output then
            Inr [\<lparr> vendor = ''Intel'', gpu_name = ''Intel GPU (Arc/Xe)'',
                   vram_total_gb = 0, vram_used_gb = 0,
                   utilization_percent = 0, gpu_temperature_c = None \<rparr>]
          else Inr [])
      else Inr [])"

fun wmi_loop :: "(string option \<times> int option) list \<Rightarrow> gpu_info list" where
  \<comment> \<open>the loop over the video controllers.  A controller without a name makes
     \<open>video.Name.strip()\<close> raise; the handler around the loop catches it, and the records
     appended so far are returned.\<close>
  "wmi_loop [] = []"
| "wmi_loop ((None, ram) # videos) = []"
| "wmi_loop ((Some nm, ram) # videos) =
     (let name = py_strip nm
      in if list_ex (\<lambda>v. py_in v name) [''NVIDIA'', ''AMD'', ''Intel'', ''Radeon'', ''GeForce''] then
           (let vram_bytes = (case ram of None \<Rightarrow> 0 | Some n \<Rightarrow> n);
                vram_gb = (if vram_bytes \<noteq> 0 then real_of_int vram_bytes / 1024 ^ 3 else 0)
            in \<lparr> vendor = ''Integrated/Discrete'', gpu_name = name,
                 vram_total_gb = vram_gb, vram_used_gb = 0,
                 utilization_percent = 0, gpu_temperature_c = None \<rparr> # wmi_loop videos)
         else wmi_loop videos)"

definition GPUDetector_detect_wmi :: "host \<Rightarrow> exn + gpu_info list" where
  "GPUDetector_detect_wmi h =
     (case wmi_video_controllers h of
        Inl e \<Rightarrow> Inr []
      | Inr videos \<Rightarrow> Inr (wmi_loop videos))"

definition no_gpu :: gpu_info where
  "no_gpu = \<lparr> vendor = ''Unknown'', gpu_name = ''No dedicated GPU detected'',
              vram_total_gb = 0, vram_used_gb = 0,
              utilization_percent = 0, gpu_temperature_c = Some 0 \<rparr>"

definition GPUDetector_detect :: "host \<Rightarrow> exn + gpu_info list" where
  "GPUDetector_detect h =
     and_then (GPUDetector_detect_nvidia h) (\<lambda>nvidia.
     and_then (GPUDetector_detect_amd h) (\<lambda>amd.
     and_then (GPUDetector_detect_intel h) (\<lambda>intel.
     and_then (if nvidia @ amd @ intel = [] \<and> WMI_AVAILABLE h \<and> startswith (sys_platform h) ''win''
               then and_then (GPUDetector_detect_wmi h) (\<lambda>wmi. Inr (nvidia @ amd @ intel @ wmi))
               else Inr (nvidia @ amd @ intel)) (\<lambda>gpus.
       Inr (if gpus = [] then [no_gpu] else gpus)))))"

section \<open>MemoryDetector\<close>

record memory_info =
  ram_total_bytes :: int
  ram_available_bytes :: int
  ram_used_bytes :: int
  ram_percent :: real
  swap_total_bytes :: int
  swap_used_bytes :: int
  swap_percent :: real


section \<open>DiskDetector\<close>

definition is_az :: "char \<Rightarrow> bool" where
  \<comment> \<open>the character class \<open>[a-z]\<close>\<close>
  "is_az c = (97 \<le> (of_char c :: nat) \<and> (of_char c :: nat) \<le> 122)"

fun re_search_dev :: "string \<Rightarrow> string option" where
  \<comment> \<open>\<open>re.search(r"/dev/([a-z]+)", s)\<close>: group 1 of the leftmost match, \<open>None\<close> without one\<close>
  "re_search_dev [] = None"
| "re_search_dev (c # cs) =
     (if prefix ''/dev/'' (c # cs) \<and> takeWhile is_az (drop 5 (c # cs)) \<noteq> []
      then Some (takeWhile is_az (drop 5 (c # cs)))
      else re_search_dev cs)"

definition rotational_type :: "host \<Rightarrow> string \<Rightarrow> string option" where
  \<comment> \<open>the Linux branch: the type it returns, or \<open>None\<close> where control falls through
     (no match, or an exception caught while the pseudo-file is opened and read)\<close>
  "rotational_type h device_lower =
     (if startswith (sys_platform h) ''linux'' then
        (case re_search_dev device_lower of
           Some dev_name \<Rightarrow>
             (case read_rotational h dev_name of
                Inr content \<Rightarrow> Some (if py_strip content = ''0'' then ''SSD'' else ''HDD'')
              | Inl e \<Rightarrow> None)
         | None \<Rightarrow> None)
      else None)"

definition detect_disk_type :: "host \<Rightarrow> string \<Rightarrow> exn + string" where
  "detect_disk_type h dev =
     (let device_lower = py_lower dev
      in if py_in ''nvme'' device_lower then Inr ''NVMe''
         else (case rotational_type h device_lower of
                 Some t \<Rightarrow> Inr t
               | None \<Rightarrow> if py_in ''ssd'' device_lower then Inr ''SSD'' else Inr ''Unknown''))"

record bench_result =
  read_mb_s :: real
  write_mb_s :: real

record disk_info =
  d_mountpoint :: string
  d_device :: string
  d_fstype :: string
  total_bytes :: int
  used_bytes :: int
  free_bytes :: int
  percent :: real
  disk_type :: string
  is_system :: bool
  benchmark :: "bench_result option"   \<comment> \<open>the key the collector may add; absent at first\<close>

definition system_mount :: "partition \<Rightarrow> bool" where
  "system_mount p =
     (mountpoint p = ''/'' \<or> mountpoint p = ''C:'' @ [CHR 0x5C] \<or> py_in ''Windows'' (opts p))"

fun collect_disks :: "host \<Rightarrow> partition list \<Rightarrow> exn + disk_info list" where
  \<comment> \<open>the loop over the partitions: the list \<open>disks\<close> it builds\<close>
  "collect_disks h [] = Inr []"
| "collect_disks h (p # ps) =
     (if fstype p = [] \<or> py_in ''loop'' (device p) then collect_disks h ps
      else
        (case disk_usage h (mountpoint p) of
           Inl e \<Rightarrow> if e = PermissionError then collect_disks h ps else Inl e
         | Inr (utotal, uused, ufree, upercent) \<Rightarrow>
             and_then (detect_disk_type h (device p)) (\<lambda>dtype.
             and_then (collect_disks h ps) (\<lambda>rest.
               Inr (\<lparr> d_mountpoint = mountpoint p, d_device = device p, d_fstype = fstype p,
                      total_bytes = utotal, used_bytes = uused, free_bytes = ufree,
                      percent = upercent, disk_type = dtype,
                      is_system = system_mount p, benchmark = None \<rparr> # rest)))))"

definition disk_key :: "disk_info \<Rightarrow> bool \<times> string" where
  \<comment> \<open>the sort key \<open>(not x["is_system"], x["mountpoint"])\<close>\<close>
  "disk_key x = (\<not> is_system x, d_mountpoint x)"

definition DiskDetector_detect :: "host \<Rightarrow> exn + disk_info list" where
  "DiskDetector_detect h =
     and_then (disk_partitions h) (\<lambda>partitions.
     and_then (collect_disks h partitions) (\<lambda>disks.
       Inr (take 3 (sort_key disk_key disks))))"

text \<open>
  The benchmark works on a file system, modelled as the set of paths that exist, and reads
  a clock.  \<open>bench_host\<close> gives the outcome of each step of one run.
\<close>

record bench_host =
  home :: string                        \<comment> \<open>\<open>os.path.expanduser("~")\<close>\<close>
  clock :: "nat \<Rightarrow> real"                 \<comment> \<open>the k-th reading of \<open>time.time()\<close>\<close>
  alloc_fails :: "exn option"           \<comment> \<open>building the buffer raises\<close>
  open_fails :: "exn option"            \<comment> \<open>\<open>open(test_file, "wb")\<close> raises; no file is created\<close>
  write_fails :: "exn option"           \<comment> \<open>write, flush or fsync raises; the file exists\<close>
  read_fails :: "exn option"            \<comment> \<open>opening or reading the file back raises\<close>
  remove_fails :: "nat \<Rightarrow> exn option"    \<comment> \<open>the k-th call of \<open>os.remove\<close> raises; the file stays\<close>

definition os_path_join :: "string \<Rightarrow> string \<Rightarrow> string" where
  \<comment> \<open>\<open>os.path.join\<close> (POSIX) for a relative second component\<close>
  "os_path_join a b = (if a = [] \<or> last a = CHR ''/'' then a @ b else a @ ''/'' @ b)"

definition bench_cleanup ::
  "bench_host \<Rightarrow> nat \<Rightarrow> string \<Rightarrow> string set \<Rightarrow> bench_result option \<times> string set" where
  \<comment> \<open>the \<open>except Exception\<close> handler; \<open>k\<close> counts the earlier calls of \<open>os.remove\<close>\<close>
  "bench_cleanup bh k test_file files =
     (if test_file \<in> files then
        (case remove_fails bh k of
           None \<Rightarrow> (None, files - {test_file})
         | Some e \<Rightarrow> (None, files))
      else (None, files))"

definition benchmark_speed ::
  "bench_host \<Rightarrow> string set \<Rightarrow> string option \<Rightarrow> int \<Rightarrow> int
     \<Rightarrow> bench_result option \<times> string set" where
  \<comment> \<open>the result, and the files that exist after the call\<close>
  "benchmark_speed bh files path size_mb timeout =
     (let dir = (case path of None \<Rightarrow> home bh | Some p \<Rightarrow> p);
          test_file = os_path_join dir ''.llm_neofetch_benchmark.tmp'';
          start = clock bh 0
      in if alloc_fails bh \<noteq> None then bench_cleanup bh 0 test_file files
         else if open_fails bh \<noteq> None then bench_cleanup bh 0 test_file files
         else if write_fails bh \<noteq> None then bench_cleanup bh 0 test_file (insert test_file files)
         else
           (let files1 = insert test_file files;
                write_time = clock bh 1 - start
            in if write_time > real_of_int timeout then (None, files1)
               else
                 (let start2 = clock bh 2
                  in if read_fails bh \<noteq> None then bench_cleanup bh 0 test_file files1
                     else
                       (let read_time = clock bh 3 - start2
                        in if remove_fails bh 0 \<noteq> None then bench_cleanup bh 1 test_file files1
                           else
                             (Some \<lparr> read_mb_s = (if read_time > 0 then real_of_int size_mb / read_time else 0),
                                     write_mb_s = (if write_time > 0 then real_of_int size_mb / write_time else 0) \<rparr>,
                              files1 - {test_file})))))"

section \<open>Decimal rendering\<close>

function show_nat :: "nat \<Rightarrow> string" where
  \<comment> \<open>\<open>str(n)\<close> for \<open>n \<ge> 0\<close>\<close>
  "show_nat n =
     (if n < 10 then [char_of (48 + n)]
      else show_nat (n div 10) @ [char_of (48 + n mod 10)])"
  by pat_completeness auto
termination
  by (relation "measure id") auto

declare show_nat.simps [simp del]


section \<open>BatteryDetector, MotherboardDetector, AppleSiliconDetector\<close>

record battery_info =
  bat_percent :: real
  plugged :: "bool option"
  time_left :: string
  time_left_seconds :: int







record apple_info =
  chip :: string
  variant :: string
  unified_memory_gb :: real
  supports_mlx :: bool





section \<open>The collector\<close>

record snapshot =
  timestamp :: string
  os :: os_info
  uptime :: uptime_info
  cpu :: cpu_info
  gpus :: "gpu_info list"
  memory :: memory_info
  disks :: "disk_info list"
  battery :: "battery_info option"
  motherboard :: string
  apple_silicon :: "apple_info option"   \<comment> \<open>the key added only where the probe found a chip\<close>



section \<open>UIRenderer.format_size\<close>

function ilog1024 :: "nat \<Rightarrow> nat" where
  \<comment> \<open>the exact integer part of the logarithm to base 1024, for \<open>b \<ge> 1\<close>\<close>
  "ilog1024 b = (if b < 1024 then 0 else Suc (ilog1024 (b div 1024)))"
  by pat_completeness auto
termination
  by (relation "measure id") auto

declare ilog1024.simps [simp del]

definition units :: "string list" where
  "units = ['''', ''Ki'', ''Mi'', ''Gi'', ''Ti'', ''Pi'']"

definition unit_index :: "(nat \<Rightarrow> nat) \<Rightarrow> nat \<Rightarrow> nat" where
  \<comment> \<open>\<open>i = min(int(math.log(bytes_val, 1024)), len(units) - 1)\<close>.  The logarithm is a
     floating-point computation of the math library: \<open>mlog b\<close> stands for
     \<open>int(math.log(b, 1024))\<close> and is taken as given.\<close>
  "unit_index mlog b = min (mlog b) (length units - 1)"

definition fmt_1f :: "double \<Rightarrow> string" where
  \<comment> \<open>\<open>f"{x:.1f}"\<close>: the value of the double to one decimal place, a tie going to the
     even digit\<close>
  "fmt_1f x =
     (case x of (m, k) \<Rightarrow>
        (let t = (if 0 \<le> k then round_half_even (m * 10) (2 ^ nat k)
                  else m * 10 * 2 ^ nat (- k))
         in show_nat (t div 10) @ ''.'' @ show_nat (t mod 10)))"

definition true_div :: "nat \<Rightarrow> nat \<Rightarrow> exn + double" where
  \<comment> \<open>\<open>a / b\<close> on integers: \<open>OverflowError\<close> where the result is too large for a float\<close>
  "true_div a b = (if overflows a b then Inl OverflowError else Inr (to_double a b))"

definition format_size :: "(nat \<Rightarrow> nat) \<Rightarrow> int \<Rightarrow> string \<Rightarrow> exn + string" where
  \<comment> \<open>for an integer byte count, as the detectors supply it; \<open>math.log\<close> raises
     \<open>ValueError\<close> on a negative one\<close>
  "format_size mlog bytes_val sfx =
     (if bytes_val = 0 then Inr ''0 B''
      else if bytes_val < 0 then Inl ValueError
      else (let i = unit_index mlog (nat bytes_val); p = 1024 ^ i
            in and_then (true_div (nat bytes_val) p) (\<lambda>x.
                 Inr (fmt_1f x @ '' '' @ units ! i @ sfx))))"

section \<open>Fixtures\<close>

definition quiet_host :: host where
  \<comment> \<open>a Linux machine on which nothing is installed and every command fails\<close>
  "quiet_host =
     \<lparr> sys_platform = ''linux'', WMI_AVAILABLE = False, which = (\<lambda>tool. False),
       check_output = (\<lambda>cmd t. Inl CalledProcessError),
       py_float = (\<lambda>s. None), py_int = (\<lambda>s. None),
       now_iso = ''2024-01-01T00:00:00'',
       platform_system = ''Linux'', uname_release = ''6.1'', uname_version = ''#1'',
       uname_machine = ''x86_64'', uname_processor = [], platform_processor = [],
       platform_platform = ''Linux-6.1'', platform_python_version = ''3.11.0'',
       now_us = 0, boot_us = Inr 0,
       cpu_count = (\<lambda>logical. Inr None), cpu_freq = Inr None, cpu_percent = Inr 0,
       sensors_temperatures = Inl AttributeError,
       virtual_memory = Inr (0, 0, 0, 0), swap_memory = Inr (0, 0, 0),
       disk_partitions = Inr [], disk_usage = (\<lambda>m. Inl FileNotFoundError),
       read_rotational = (\<lambda>d. Inl FileNotFoundError),
       sensors_battery = Inr None,
       wmi_video_controllers = Inl OtherException, wmi_base_boards = Inl OtherException \<rparr>"

definition echo_host :: host where
  \<comment> \<open>\<open>quiet_host\<close> with a shell that knows \<open>echo test\<close>\<close>
  "echo_host =
     quiet_host \<lparr> check_output :=
       (\<lambda>cmd t. if cmd = ''echo test'' then Inr (''test'' @ [CHR 0x0A])
                else Inl CalledProcessError) \<rparr>"

definition day_host :: host where
  \<comment> \<open>booted 1 day, 2 hours, 3 minutes, 4.5 seconds ago\<close>
  "day_host = quiet_host \<lparr> now_us := 93784500000, boot_us := Inr 0 \<rparr>"

definition wmic_host :: host where
  \<comment> \<open>a Windows machine without a processor identifier, whose \<open>wmic\<close> prints only the header\<close>
  "wmic_host =
     quiet_host \<lparr> sys_platform := ''win32'',
       check_output := (\<lambda>cmd t. if cmd = ''wmic cpu get name'' then Inr (''Name  '' @ [CHR 0x0D, CHR 0x0A])
                                else Inl CalledProcessError) \<rparr>"

definition wmi_host :: host where
  \<comment> \<open>a Windows machine with the \<open>wmi\<close> module, no vendor tool, and one video controller\<close>
  "wmi_host =
     quiet_host \<lparr> sys_platform := ''win32'', WMI_AVAILABLE := True,
       wmi_video_controllers := Inr [(Some ''NVIDIA GeForce RTX 3060'', Some 4294967296)] \<rparr>"

definition sda_host :: host where
  \<comment> \<open>\<open>quiet_host\<close> with a non-rotational block device \<open>sda\<close>\<close>
  "sda_host =
     quiet_host \<lparr> read_rotational :=
       (\<lambda>d. if d = ''sda'' then Inr (''0'' @ [CHR 0x0A]) else Inl FileNotFoundError) \<rparr>"

definition two_disk_host :: host where
  \<comment> \<open>four partitions: a data disk, a loop device, a disk whose usage is denied, the root\<close>
  "two_disk_host =
     quiet_host \<lparr>
       disk_partitions := Inr
         [\<lparr> device = ''/dev/sdb1'', mountpoint = ''/home'', fstype = ''ext4'', opts = ''rw'' \<rparr>,
          \<lparr> device = ''/dev/loop0'', mountpoint = ''/snap/core'', fstype = ''squashfs'', opts = ''ro'' \<rparr>,
          \<lparr> device = ''/dev/sdc1'', mountpoint = ''/mnt/locked'', fstype = ''ext4'', opts = ''rw'' \<rparr>,
          \<lparr> device = ''/dev/nvme0n1p2'', mountpoint = ''/'', fstype = ''ext4'', opts = ''rw'' \<rparr>],
       disk_usage := (\<lambda>m. if m = ''/mnt/locked'' then Inl PermissionError else Inr (100, 40, 60, 40)) \<rparr>"

definition home_disk :: disk_info where
  "home_disk = \<lparr> d_mountpoint = ''/home'', d_device = ''/dev/sdb1'', d_fstype = ''ext4'',
       total_bytes = 100, used_bytes = 40, free_bytes = 60, percent = 40,
       disk_type = ''Unknown'', is_system = False, benchmark = None \<rparr>"

definition root_disk :: disk_info where
  "root_disk = \<lparr> d_mountpoint = ''/'', d_device = ''/dev/nvme0n1p2'', d_fstype = ''ext4'',
       total_bytes = 100, used_bytes = 40, free_bytes = 60, percent = 40,
       disk_type = ''NVMe'', is_system = True, benchmark = None \<rparr>"

definition slow_disk :: bench_host where
  \<comment> \<open>every step succeeds; writing and syncing the file takes 31 seconds\<close>
  "slow_disk =
     \<lparr> home = ''/root'', clock = (\<lambda>k. if k = 0 then 0 else 31),
       alloc_fails = None, open_fails = None, write_fails = None, read_fails = None,
       remove_fails = (\<lambda>k. None) \<rparr>"


definition tie_host :: host where
  \<comment> \<open>four readable partitions, listed with \<open>/mnt/b\<close> before \<open>/mnt/a\<close> and the root third\<close>
  "tie_host =
     quiet_host \<lparr>
       disk_partitions := Inr
         [\<lparr> device = ''/dev/sdb1'', mountpoint = ''/mnt/b'', fstype = ''ext4'', opts = ''rw'' \<rparr>,
          \<lparr> device = ''/dev/sdc1'', mountpoint = ''/mnt/a'', fstype = ''ext4'', opts = ''rw'' \<rparr>,
          \<lparr> device = ''/dev/sda1'', mountpoint = ''/'', fstype = ''ext4'', opts = ''rw'' \<rparr>,
          \<lparr> device = ''/dev/sdd1'', mountpoint = ''/srv'', fstype = ''ext4'', opts = ''rw'' \<rparr>],
       disk_usage := (\<lambda>m. Inr (100, 40, 60, 40)) \<rparr>"

definition plain_disk :: "string \<Rightarrow> string \<Rightarrow> bool \<Rightarrow> disk_info" where
  \<comment> \<open>the entry of \<open>tie_host\<close> for a device and its mount point\<close>
  "plain_disk dev mnt sys =
     \<lparr> d_mountpoint = mnt, d_device = dev, d_fstype = ''ext4'',
       total_bytes = 100, used_bytes = 40, free_bytes = 60, percent = 40,
       disk_type = ''Unknown'', is_system = sys, benchmark = None \<rparr>"

definition ancient_host :: host where
  \<comment> \<open>booted 17179869239.999999 seconds (some 544 years) ago\<close>
  "ancient_host = quiet_host \<lparr> now_us := 17179869239999999, boot_us := Inr 0 \<rparr>"

section \<open>Properties\<close>

subsection \<open>Shared facts\<close>

lemma run_command_Inr: "\<exists>s. run_command h cmd t = Inr s"
  by (simp add: run_command_def split: sum.splits)

subsection \<open>The command runner\<close>

text \<open>
  C2. For every host, command line and timeout, \<open>run_command\<close> returns a string and
  never raises.  When the command succeeds the string is its standard output with leading
  and trailing whitespace removed: a shell that prints \<open>test\<close> and a newline for
  \<open>echo test\<close> gives exactly \<open>test\<close>.  When the execution raises (timeout expiry,
  non-zero exit status, missing executable, or any other exception) the string is empty.
\<close>

theorem run_command_never_raises:
  "(\<exists>s. run_command h cmd t = Inr s) \<and>
   (\<forall>out. check_output h cmd t = Inr out \<longrightarrow> run_command h cmd t = Inr (py_strip out)) \<and>
   (\<forall>e. check_output h cmd t = Inl e \<longrightarrow> run_command h cmd t = Inr []) \<and>
   (check_output h ''echo test'' 5 = Inr (''test'' @ [CHR 0x0A])
      \<longrightarrow> run_command h ''echo test'' 5 = Inr ''test'')"
  by (auto simp: run_command_def py_strip_def py_isspace_def split: sum.splits)

theorem run_command_never_raises_witness:
  "run_command echo_host ''echo test'' 5 = Inr ''test'' \<and>
   run_command echo_host ''this_command_does_not_exist_12345'' 5 = Inr []"
  using run_command_never_raises [of echo_host "''echo test''" 5]
        run_command_never_raises [of echo_host "''this_command_does_not_exist_12345''" 5]
  by (simp add: echo_host_def quiet_host_def)

subsection \<open>Double arithmetic\<close>

lemma ilog2_small: "n < 2 \<Longrightarrow> ilog2 n = 0"
  by (subst ilog2.simps) simp

lemma ilog2_large: "\<not> n < 2 \<Longrightarrow> ilog2 n = Suc (ilog2 (n div 2))"
  by (subst ilog2.simps) simp

lemma ilog2_bounds: "0 < n \<Longrightarrow> 2 ^ ilog2 n \<le> n \<and> n < 2 * 2 ^ ilog2 n"
proof (induction n rule: ilog2.induct)
  case (1 n)
  show ?case
  proof (cases "n < 2")
    case True
    with "1.prems" show ?thesis by (simp add: ilog2_small)
  next
    case False
    define q where "q = n div 2"
    define P where "P = (2::nat) ^ ilog2 q"
    have q0: "0 < q" using False by (simp add: q_def)
    from "1.IH" [OF False] q0 have ih: "P \<le> q" "q < 2 * P"
      by (simp_all add: q_def P_def)
    have lo: "q * 2 \<le> n" and hi: "n < (q + 1) * 2"
      unfolding q_def by simp_all
    have e: "ilog2 n = Suc (ilog2 q)" using False by (simp add: ilog2_large q_def)
    have "2 * P \<le> n" using ih(1) lo by simp
    moreover have "n < 2 * (2 * P)" using ih(2) hi by simp
    ultimately show ?thesis unfolding e by (simp add: P_def)
  qed
qed

lemma ilog2_less:
  assumes "n < 2 ^ m" and "0 < m"
  shows "ilog2 n < m"
proof (cases "n = 0")
  case True
  with assms(2) show ?thesis by (simp add: ilog2_small)
next
  case False
  then have "0 < n" by simp
  from ilog2_bounds [OF this] assms(1) have "(2::nat) ^ ilog2 n < 2 ^ m"
    by (rule_tac le_less_trans) simp_all
  then show ?thesis by (rule power_less_imp_less_exp [rotated]) simp
qed

lemma ilog2_ge:
  assumes "2 ^ m \<le> n"
  shows "m \<le> ilog2 n"
proof -
  have "0 < n" using assms by (rule_tac less_le_trans [of _ "2 ^ m"]) simp_all
  from ilog2_bounds [OF this] have "n < 2 ^ Suc (ilog2 n)" by simp
  with assms have "(2::nat) ^ m < 2 ^ Suc (ilog2 n)" by (rule le_less_trans)
  then have "m < Suc (ilog2 n)" by (rule power_less_imp_less_exp [rotated]) simp
  then show ?thesis by simp
qed

lemma round_half_even_bounds:
  assumes "0 < d"
  shows "n div d \<le> round_half_even n d" and "2 * (round_half_even n d * d) \<le> 2 * n + d"
proof -
  define q where "q = n div d"
  define r where "r = n mod d"
  have n: "n = q * d + r" unfolding q_def r_def by simp
  show "n div d \<le> round_half_even n d"
    by (simp add: round_half_even_def Let_def)
  show "2 * (round_half_even n d * d) \<le> 2 * n + d"
  proof (cases "2 * r > d \<or> (2 * r = d \<and> odd q)")
    case True
    then have "round_half_even n d = q + 1"
      by (simp add: round_half_even_def Let_def q_def r_def)
    moreover from True have "d \<le> 2 * r" by auto
    ultimately show ?thesis unfolding n by (simp add: algebra_simps)
  next
    case False
    then have "round_half_even n d = q"
      by (simp add: round_half_even_def Let_def q_def r_def)
    then show ?thesis unfolding n by (simp add: algebra_simps)
  qed
qed

lemma scaled_round_div:
  assumes "0 < b" and "b < 2 * K"
  shows "round_half_even (a * K) b div K = a div b"
proof -
  define q where "q = a div b"
  define r where "r = a mod b"
  define M where "M = round_half_even (a * K) b"
  have a: "a = q * b + r" unfolding q_def r_def by simp
  have r: "r < b" unfolding r_def using assms(1) by simp
  have K: "0 < K" using assms by (cases K) simp_all
  have "q * K * b \<le> a * K" unfolding a by (simp add: algebra_simps)
  then have "q * K \<le> (a * K) div b"
    using assms(1) by (simp add: less_eq_div_iff_mult_less_eq)
  also have "\<dots> \<le> M"
    unfolding M_def using round_half_even_bounds(1) [OF assms(1)] .
  finally have lo: "q * K \<le> M" .
  have up: "2 * (M * b) \<le> 2 * (a * K) + b"
    unfolding M_def using round_half_even_bounds(2) [OF assms(1)] .
  have hi: "M < (q + 1) * K"
  proof (rule ccontr)
    assume "\<not> M < (q + 1) * K"
    then have "(q + 1) * K \<le> M" by simp
    then have "(q + 1) * K * b \<le> M * b" by (rule mult_le_mono1)
    then have "2 * ((q + 1) * K * b) \<le> 2 * (M * b)" by (rule mult_le_mono2)
    from this up have "2 * ((q + 1) * K * b) \<le> 2 * (a * K) + b" by (rule order_trans)
    then have "2 * (q * K * b) + 2 * (K * b) \<le> 2 * (q * K * b) + 2 * (r * K) + b"
      unfolding a by (simp add: algebra_simps)
    then have 1: "2 * (K * b) \<le> 2 * (K * r) + b" by (simp add: mult.commute)
    from r have "r + 1 \<le> b" by simp
    then have "K * (r + 1) \<le> K * b" by (rule mult_le_mono2)
    then have 2: "K * r + K \<le> K * b" by (simp add: algebra_simps)
    define X where "X = K * b"
    define Y where "Y = K * r"
    from 1 2 have "2 * X \<le> 2 * Y + b" and "Y + K \<le> X"
      unfolding X_def Y_def by simp_all
    then have "2 * K \<le> b" by linarith
    with assms(2) show False by simp
  qed
  from lo have "q \<le> M div K"
    using K by (simp add: less_eq_div_iff_mult_less_eq)
  moreover from hi have "M div K < q + 1"
    using K by (simp add: div_less_iff_less_mult)
  ultimately show ?thesis unfolding M_def q_def by simp
qed

lemma int_of_to_double:
  assumes "0 < b" and "b < 2 ^ 20" and "a < 2 ^ 34 * b"
  shows "int_of_double (to_double a b) = a div b"
proof (cases "a = 0")
  case True
  then show ?thesis by (simp add: to_double_def int_of_double_def)
next
  case False
  have L: "log2_floor a b \<le> 33"
  proof (cases "b \<le> a")
    case True
    have "a div b < 2 ^ 34"
      using assms(1,3) by (simp add: div_less_iff_less_mult)
    then have "ilog2 (a div b) < 34" by (rule ilog2_less) simp
    with True show ?thesis by (simp add: log2_floor_def)
  next
    case False
    then show ?thesis by (simp add: log2_floor_def)
  qed
  define k where "k = min (52 - log2_floor a b) 1074"
  have k: "19 \<le> k" using L by (simp add: k_def)
  define K where "K = (2::nat) ^ nat k"
  have "(2::nat) ^ 19 \<le> 2 ^ nat k"
    using k by (intro power_increasing) simp_all
  then have "(2::nat) ^ 20 \<le> 2 * K" by (simp add: K_def)
  with assms(2) have bK: "b < 2 * K" by simp
  have "to_double a b = (round_half_even (a * K) b, k)"
    using False k by (simp add: to_double_def k_def [symmetric] K_def Let_def)
  then have "int_of_double (to_double a b) = round_half_even (a * K) b div K"
    using k by (simp add: int_of_double_def K_def)
  also have "\<dots> = a div b" by (rule scaled_round_div [OF assms(1) bK])
  finally show ?thesis .
qed

subsection \<open>Uptime\<close>

lemma timedelta_of_total:
  assumes "0 \<le> us" and "us < 17179869184000000"
  shows "int_total_seconds (timedelta_of us) = us div 1000000"
    and "td_days (timedelta_of us) = (us div 1000000) div 86400"
    and "td_seconds (timedelta_of us) = (us div 1000000) mod 86400"
proof -
  define q where "q = us div 1000000"
  have d: "us div 86400000000 = q div 86400"
    using zdiv_zmult2_eq [where a = us and b = 1000000 and c = 86400] by (simp add: q_def)
  have m: "us mod 86400000000 = 1000000 * (q mod 86400) + us mod 1000000"
    using zmod_zmult2_eq [where a = us and b = 1000000 and c = 86400] by (simp add: q_def)
  have s: "(us mod 86400000000) div 1000000 = q mod 86400"
    unfolding m by simp
  show "td_days (timedelta_of us) = (us div 1000000) div 86400"
    by (simp add: timedelta_of_def d q_def)
  show "td_seconds (timedelta_of us) = (us div 1000000) mod 86400"
    by (simp add: timedelta_of_def s q_def)
  have "q div 86400 * 86400 + q mod 86400 = q"
    by (rule div_mult_mod_eq)
  moreover have "q * 1000000 + us mod 1000000 = us"
    unfolding q_def by (rule div_mult_mod_eq)
  ultimately have r: "(us div 86400000000 * 86400 + (us mod 86400000000) div 1000000) * 1000000
          + us mod 1000000 = us"
    unfolding d s by simp
  have "nat us < 2 ^ 34 * 1000000"
    using assms by simp
  then have "int_of_double (to_double (nat us) 1000000) = nat us div 1000000"
    by (intro int_of_to_double) simp_all
  then have "int (int_of_double (to_double (nat us) 1000000)) = us div 1000000"
    using assms(1) by (simp add: zdiv_int)
  with assms(1) r show "int_total_seconds (timedelta_of us) = us div 1000000"
    by (simp add: int_total_seconds_def timedelta_of_def Let_def)
qed

lemma hms_recompose:
  fixes T :: int
  shows "T div 86400 * 86400 + (T mod 86400) div 3600 * 3600
           + ((T mod 86400) mod 3600) div 60 * 60 + T mod 60 = T"
proof -
  define r where "r = T mod 86400"
  define m where "m = r mod 3600"
  define D where "D = T div 86400"
  define H where "H = r div 3600"
  define M where "M = m div 60"
  define s where "s = T mod 60"
  have 1: "D * 86400 + r = T"
    unfolding r_def D_def by (rule div_mult_mod_eq)
  have 2: "H * 3600 + m = r"
    unfolding m_def H_def by (rule div_mult_mod_eq)
  have "m mod 60 = r mod 60"
    unfolding m_def by (rule mod_mod_cancel) simp
  also have "\<dots> = T mod 60"
    unfolding r_def by (rule mod_mod_cancel) simp
  finally have 4: "m mod 60 = s" unfolding s_def .
  have "M * 60 + m mod 60 = m"
    unfolding M_def by (rule div_mult_mod_eq)
  then have 3: "M * 60 + s = m" unfolding 4 .
  have "D * 86400 + H * 3600 + M * 60 + s = T"
    using 1 2 3 by simp
  then show ?thesis
    unfolding D_def H_def M_def s_def m_def r_def .
qed


text \<open>
  C7, amended. When the boot time is not after the current time and the elapsed time is
  below \<open>2 ^ 34\<close> seconds (some 544 years), \<open>get_uptime\<close> returns a record whose fields
  agree with its total seconds \<open>T\<close>: \<open>T\<close> is the elapsed time in whole seconds,
  \<open>days\<close> is \<open>T div 86400\<close>, \<open>hours\<close> and \<open>minutes\<close> are the floor divisions of
  what remains after the whole days, and
  \<open>days * 86400 + hours * 3600 + minutes * 60 + T mod 60\<close> gives back \<open>T\<close> itself, so
  it is within 60 seconds of \<open>T\<close>.
\<close>

theorem uptime_roundtrip:
  assumes "boot_us h = Inr boot" and "boot \<le> now_us h"
    and "now_us h - boot < 2 ^ 34 * 1000000"
  shows "\<exists>u. get_uptime h = Inr u \<and>
           (let T = total_seconds u
            in T = (now_us h - boot) div 1000000 \<and> 0 \<le> T \<and>
               days u = T div 86400 \<and>
               hours u = (T mod 86400) div 3600 \<and>
               minutes u = ((T mod 86400) mod 3600) div 60 \<and>
               days u * 86400 + hours u * 3600 + minutes u * 60 + T mod 60 = T \<and>
               \<bar>days u * 86400 + hours u * 3600 + minutes u * 60 + T mod 60 - T\<bar> < 60)"
proof -
  define us where "us = now_us h - boot"
  have nn: "0 \<le> us" using assms by (simp add: us_def)
  have lt: "us < 17179869184000000" using assms(3) by (simp add: us_def)
  define T where "T = us div 1000000"
  have T0: "0 \<le> T" unfolding T_def using nn by (rule pos_imp_zdiv_nonneg_iff [THEN iffD2, rotated]) simp
  define u where
    "u = \<lparr> days = T div 86400, hours = (T mod 86400) div 3600,
            minutes = ((T mod 86400) mod 3600) div 60, total_seconds = T \<rparr>"
  have "get_uptime h =
          Inr \<lparr> days = td_days (timedelta_of us),
                hours = td_seconds (timedelta_of us) div 3600,
                minutes = (td_seconds (timedelta_of us) mod 3600) div 60,
                total_seconds = int_total_seconds (timedelta_of us) \<rparr>"
    unfolding get_uptime_def and_then_def assms(1) us_def Let_def sum.case ..
  then have g: "get_uptime h = Inr u"
    unfolding timedelta_of_total [OF nn lt] T_def [symmetric] u_def .
  have f: "total_seconds u = T" "days u = T div 86400" "hours u = (T mod 86400) div 3600"
    "minutes u = ((T mod 86400) mod 3600) div 60"
    unfolding u_def by (rule uptime_info.select_convs)+
  have r: "days u * 86400 + hours u * 3600 + minutes u * 60 + T mod 60 = T"
    unfolding f by (rule hms_recompose)
  have a: "\<bar>days u * 86400 + hours u * 3600 + minutes u * 60 + T mod 60 - T\<bar> < 60"
    unfolding r by simp
  have t: "T = (now_us h - boot) div 1000000"
    unfolding T_def us_def ..
  have "(let T = total_seconds u
            in T = (now_us h - boot) div 1000000 \<and> 0 \<le> T \<and>
               days u = T div 86400 \<and>
               hours u = (T mod 86400) div 3600 \<and>
               minutes u = ((T mod 86400) mod 3600) div 60 \<and>
               days u * 86400 + hours u * 3600 + minutes u * 60 + T mod 60 = T \<and>
               \<bar>days u * 86400 + hours u * 3600 + minutes u * 60 + T mod 60 - T\<bar> < 60)"
    unfolding Let_def f(1) using t T0 f(2) f(3) f(4) r a by (intro conjI)
  with g show ?thesis by blast
qed

theorem uptime_roundtrip_witness:
  "\<exists>u. get_uptime day_host = Inr u \<and> total_seconds u = 93784 \<and>
        days u = 1 \<and> hours u = 2 \<and> minutes u = 3"
proof -
  have b: "boot_us day_host = Inr 0" and n: "0 \<le> now_us day_host"
    and l: "now_us day_host - 0 < 2 ^ 34 * 1000000"
    by (simp_all add: day_host_def quiet_host_def)
  have v: "(now_us day_host - 0) div 1000000 = 93784"
    by (simp add: day_host_def quiet_host_def)
  from uptime_roundtrip [OF b n l] obtain u where
    g: "get_uptime day_host = Inr u" and
    p: "total_seconds u = 93784" "days u = total_seconds u div 86400"
       "hours u = (total_seconds u mod 86400) div 3600"
       "minutes u = ((total_seconds u mod 86400) mod 3600) div 60"
    unfolding Let_def v by blast
  have "days u = 1" "hours u = 2" "minutes u = 3"
    unfolding p(2-4) p(1) by simp_all
  with g p(1) show ?thesis by blast
qed

lemma ilog2_ancient: "ilog2 17179869239 = 34"
  by (simp add: ilog2_large ilog2_small)

lemma ancient_seconds:
  "int_of_double (to_double 17179869239999999 1000000) = 17179869240"
  by (simp add: to_double_def log2_floor_def ilog2_ancient round_half_even_def
      int_of_double_def Let_def)

text \<open>
  C7, as stated, fails for a very long uptime.  \<open>total_seconds\<close> goes through a double,
  and from \<open>2 ^ 34\<close> seconds on a double cannot hold the microseconds: an elapsed time
  of 17179869239.999999 seconds becomes 17179869240, while \<open>days\<close>, \<open>hours\<close> and
  \<open>minutes\<close> come from the exact fields of the difference.  The record then has 53
  minutes where the chain of its total seconds gives 54, and the reconstruction is 60
  seconds short of the total.
\<close>

theorem uptime_float_counterexample:
  "get_uptime ancient_host =
     Inr \<lparr> days = 198841, hours = 1, minutes = 53, total_seconds = 17179869240 \<rparr> \<and>
   ((17179869240 mod 86400) mod 3600) div 60 = (54::int) \<and>
   17179869240 - (198841 * 86400 + 1 * 3600 + 53 * 60 + 17179869240 mod 60) = (60::int)"
proof -
  have t: "int_total_seconds (timedelta_of 17179869239999999) = 17179869240"
    using ancient_seconds by (simp add: int_total_seconds_def timedelta_of_def Let_def)
  have "get_uptime ancient_host =
          Inr \<lparr> days = td_days (timedelta_of 17179869239999999),
                hours = td_seconds (timedelta_of 17179869239999999) div 3600,
                minutes = (td_seconds (timedelta_of 17179869239999999) mod 3600) div 60,
                total_seconds = int_total_seconds (timedelta_of 17179869239999999) \<rparr>"
    by (simp add: get_uptime_def and_then_def ancient_host_def quiet_host_def Let_def)
  then have "get_uptime ancient_host =
     Inr \<lparr> days = 198841, hours = 1, minutes = 53, total_seconds = 17179869240 \<rparr>"
    unfolding t by (simp add: timedelta_of_def)
  then show ?thesis by simp
qed


subsection \<open>The CPU name\<close>

lemma splitlines_Nil: "splitlines [] = []"
  by (simp add: splitlines_def)

lemma win_not_darwin: "startswith p ''win'' \<Longrightarrow> p \<noteq> ''darwin''"
  by (auto simp: startswith_def)

lemma win_not_linux: "startswith p ''win'' \<Longrightarrow> \<not> startswith p ''linux''"
  by (cases p) (auto simp: startswith_def)

lemma py_strip_Unknown: "py_strip ''Unknown'' = ''Unknown''"
  by (simp add: py_strip_def py_isspace_def)

lemma wmic_out: "run_command wmic_host ''wmic cpu get name'' 5 = Inr ''Name''"
  by (simp add: wmic_host_def quiet_host_def run_command_def py_strip_def py_isspace_def)

lemma wmic_detect: "\<exists>c. CPUDetector_detect wmic_host = Inr c"
  unfolding CPUDetector_detect_def name_windows_def name_darwin_def name_linux_def wmic_out
  by (simp add: wmic_host_def quiet_host_def and_then_def str_or_def truthy_def startswith_def
      splitlines_def py_linebreak_def CPUDetector_get_temperature_def)

text \<open>
  C10. On the Windows family, when both processor identifiers are empty and the
  \<open>wmic\<close> query returns exactly one line, the name in the record returned by
  \<open>CPUDetector.detect\<close> is \<open>Unknown\<close>, which is not the sentinel \<open>Unknown CPU\<close>.
\<close>

theorem cpu_name_unknown_on_windows:
  assumes "startswith (sys_platform h) ''win''"
    and "platform_processor h = []" and "uname_processor h = []"
    and "run_command h ''wmic cpu get name'' 5 = Inr out"
    and "length (splitlines out) = 1"
    and "CPUDetector_detect h = Inr c"
  shows "cpu_name c = ''Unknown'' \<and> cpu_name c \<noteq> ''Unknown CPU''"
proof -
  have ne: "out \<noteq> []" using assms(5) splitlines_Nil by auto
  have w: "name_windows h (str_or (platform_processor h) (uname_processor h)) = Inr ''Unknown''"
    using assms(1-5) ne by (simp add: name_windows_def str_or_def truthy_def and_then_def)
  have d: "name_darwin h ''Unknown'' = Inr ''Unknown''"
    by (simp add: name_darwin_def truthy_def)
  have l: "name_linux h ''Unknown'' = Inr ''Unknown''"
    by (simp add: name_linux_def truthy_def)
  from assms(6) have "cpu_name c = str_or (py_strip ''Unknown'') ''Unknown CPU''"
    unfolding CPUDetector_detect_def w
    by (auto simp: and_then_def d l split: sum.splits)
  then show ?thesis
    by (simp add: py_strip_Unknown str_or_def truthy_def)
qed

theorem cpu_name_unknown_on_windows_witness:
  "\<exists>c. CPUDetector_detect wmic_host = Inr c \<and> cpu_name c = ''Unknown''"
proof -
  from wmic_detect obtain c where c: "CPUDetector_detect wmic_host = Inr c" ..
  have "cpu_name c = ''Unknown'' \<and> cpu_name c \<noteq> ''Unknown CPU''"
    by (rule cpu_name_unknown_on_windows [OF _ _ _ wmic_out _ c])
       (simp_all add: wmic_host_def quiet_host_def startswith_def splitlines_def py_linebreak_def)
  with c show ?thesis by blast
qed


subsection \<open>GPU detection\<close>

lemma nvidia_line_vendor: "nvidia_line h line = Some g \<Longrightarrow> vendor g = ''NVIDIA''"
  by (auto simp: nvidia_line_def Let_def split: if_splits option.splits)

lemma map_filter_vendor:
  "g \<in> set (List.map_filter (nvidia_line h) ls) \<Longrightarrow> vendor g = ''NVIDIA''"
  by (induction ls) (auto simp: nvidia_line_vendor split: option.splits)

lemma detect_nvidia_Inr:
  "\<exists>gs. GPUDetector_detect_nvidia h = Inr gs \<and> (\<forall>g\<in>set gs. vendor g = ''NVIDIA'')"
proof -
  obtain s where s: "run_command h nvidia_cmd 5 = Inr s"
    using run_command_Inr by blast
  show ?thesis
    unfolding GPUDetector_detect_nvidia_def and_then_def s
    by (auto simp: map_filter_vendor)
qed

lemma detect_amd_Inr:
  "\<exists>gs. GPUDetector_detect_amd h = Inr gs \<and> (\<forall>g\<in>set gs. vendor g = ''AMD'')"
proof -
  obtain a b c d where s:
    "run_command h ''rocm-smi --showproductname'' 5 = Inr a"
    "run_command h ''rocm-smi --showmeminfo vram'' 5 = Inr b"
    "run_command h ''rocm-smi --showtemp'' 5 = Inr c"
    "run_command h ''rocm-smi --showuse'' 5 = Inr d"
    using run_command_Inr by meson
  show ?thesis
    unfolding GPUDetector_detect_amd_def and_then_def s by simp
qed

lemma detect_intel_Inr:
  "\<exists>gs. GPUDetector_detect_intel h = Inr gs \<and> (\<forall>g\<in>set gs. vendor g = ''Intel'')"
proof -
  obtain s where s: "run_command h ''sycl-ls'' 5 = Inr s"
    using run_command_Inr by blast
  show ?thesis
    unfolding GPUDetector_detect_intel_def and_then_def s by simp
qed

lemma wmi_loop_vendor: "g \<in> set (wmi_loop videos) \<Longrightarrow> vendor g = ''Integrated/Discrete''"
proof (induction videos)
  case Nil
  then show ?case by simp
next
  case (Cons v videos)
  obtain nm ram where v: "v = (nm, ram)" by (cases v)
  show ?case
  proof (cases nm)
    case None
    with Cons.prems v show ?thesis by simp
  next
    case (Some n)
    with Cons v show ?thesis
      by (auto simp: Let_def split: if_splits)
  qed
qed

lemma detect_wmi_Inr:
  "\<exists>gs. GPUDetector_detect_wmi h = Inr gs \<and> (\<forall>g\<in>set gs. vendor g = ''Integrated/Discrete'')"
  by (auto simp: GPUDetector_detect_wmi_def wmi_loop_vendor split: sum.splits)

lemma gpu_detect_unfold:
  assumes "GPUDetector_detect_nvidia h = Inr n" and "GPUDetector_detect_amd h = Inr a"
    and "GPUDetector_detect_intel h = Inr i" and "GPUDetector_detect_wmi h = Inr w"
  shows "GPUDetector_detect h =
           Inr (if n @ a @ i \<noteq> [] then n @ a @ i
                else if WMI_AVAILABLE h \<and> startswith (sys_platform h) ''win'' \<and> w \<noteq> [] then w
                else [no_gpu])"
  unfolding GPUDetector_detect_def and_then_def assms by simp

text \<open>
  C3. \<open>GPUDetector.detect\<close> always returns a list, and the list is never empty.  When
  the NVIDIA, AMD and Intel sub-probes return nothing, and the Windows fallback (where it
  applies) returns nothing, the result is exactly one record: vendor \<open>Unknown\<close>, name
  \<open>No dedicated GPU detected\<close>, and VRAM total, VRAM used, utilization and temperature
  all 0.
\<close>

theorem gpu_detect_never_empty:
  "(\<exists>gs. GPUDetector_detect h = Inr gs \<and> gs \<noteq> []) \<and>
   (GPUDetector_detect_nvidia h = Inr [] \<and> GPUDetector_detect_amd h = Inr [] \<and>
    GPUDetector_detect_intel h = Inr [] \<and>
    (WMI_AVAILABLE h \<and> startswith (sys_platform h) ''win'' \<longrightarrow> GPUDetector_detect_wmi h = Inr [])
      \<longrightarrow> GPUDetector_detect h = Inr [no_gpu]) \<and>
   vendor no_gpu = ''Unknown'' \<and> gpu_name no_gpu = ''No dedicated GPU detected'' \<and>
   vram_total_gb no_gpu = 0 \<and> vram_used_gb no_gpu = 0 \<and>
   utilization_percent no_gpu = 0 \<and> gpu_temperature_c no_gpu = Some 0"
proof -
  obtain n a i w where s:
    "GPUDetector_detect_nvidia h = Inr n" "GPUDetector_detect_amd h = Inr a"
    "GPUDetector_detect_intel h = Inr i" "GPUDetector_detect_wmi h = Inr w"
    using detect_nvidia_Inr detect_amd_Inr detect_intel_Inr detect_wmi_Inr by meson
  have 1: "\<exists>gs. GPUDetector_detect h = Inr gs \<and> gs \<noteq> []"
    unfolding GPUDetector_detect_def and_then_def s by simp
  have 2: "GPUDetector_detect_nvidia h = Inr [] \<and> GPUDetector_detect_amd h = Inr [] \<and>
    GPUDetector_detect_intel h = Inr [] \<and>
    (WMI_AVAILABLE h \<and> startswith (sys_platform h) ''win'' \<longrightarrow> GPUDetector_detect_wmi h = Inr [])
      \<longrightarrow> GPUDetector_detect h = Inr [no_gpu]"
    unfolding GPUDetector_detect_def and_then_def by auto
  show ?thesis
    using 1 2 by (simp add: no_gpu_def)
qed

theorem gpu_detect_never_empty_witness:
  "GPUDetector_detect quiet_host = Inr [no_gpu]"
proof -
  have "GPUDetector_detect_nvidia quiet_host = Inr [] \<and> GPUDetector_detect_amd quiet_host = Inr [] \<and>
    GPUDetector_detect_intel quiet_host = Inr [] \<and>
    (WMI_AVAILABLE quiet_host \<and> startswith (sys_platform quiet_host) ''win''
       \<longrightarrow> GPUDetector_detect_wmi quiet_host = Inr [])"
    by (simp add: GPUDetector_detect_nvidia_def GPUDetector_detect_amd_def
        GPUDetector_detect_intel_def quiet_host_def)
  with gpu_detect_never_empty [of quiet_host] show ?thesis by blast
qed

text \<open>
  C9, as stated, fails: on the Windows fallback the vendor of a record is
  \<open>Integrated/Discrete\<close>, which is none of \<open>NVIDIA\<close>, \<open>AMD\<close>, \<open>Intel\<close>,
  \<open>Unknown\<close>.
\<close>

theorem gpu_vendor_counterexample:
  "GPUDetector_detect wmi_host =
     Inr [\<lparr> vendor = ''Integrated/Discrete'', gpu_name = ''NVIDIA GeForce RTX 3060'',
            vram_total_gb = 4, vram_used_gb = 0, utilization_percent = 0,
            gpu_temperature_c = None \<rparr>] \<and>
   ''Integrated/Discrete'' \<notin> {''NVIDIA'', ''AMD'', ''Intel'', ''Unknown''}"
  by (simp add: GPUDetector_detect_def GPUDetector_detect_nvidia_def GPUDetector_detect_amd_def
      GPUDetector_detect_intel_def GPUDetector_detect_wmi_def and_then_def wmi_host_def
      quiet_host_def startswith_def py_strip_def py_isspace_def Let_def)


text \<open>
  C9, amended. Every record returned by \<open>GPUDetector.detect\<close> has a vendor among
  \<open>NVIDIA\<close>, \<open>AMD\<close>, \<open>Intel\<close>, \<open>Integrated/Discrete\<close> and \<open>Unknown\<close>; the
  vendor \<open>Integrated/Discrete\<close> occurs only on the Windows fallback, that is with the
  \<open>wmi\<close> module available, on the Windows family, and the three vendor sub-probes empty.
\<close>

theorem gpu_vendor_set:
  assumes "GPUDetector_detect h = Inr gs" and "g \<in> set gs"
  shows "vendor g \<in> {''NVIDIA'', ''AMD'', ''Intel'', ''Integrated/Discrete'', ''Unknown''} \<and>
         (vendor g = ''Integrated/Discrete'' \<longrightarrow>
            WMI_AVAILABLE h \<and> startswith (sys_platform h) ''win'' \<and>
            GPUDetector_detect_nvidia h = Inr [] \<and> GPUDetector_detect_amd h = Inr [] \<and>
            GPUDetector_detect_intel h = Inr [])"
proof -
  obtain n where n: "GPUDetector_detect_nvidia h = Inr n" "\<forall>g\<in>set n. vendor g = ''NVIDIA''"
    using detect_nvidia_Inr [of h] by blast
  obtain a where a: "GPUDetector_detect_amd h = Inr a" "\<forall>g\<in>set a. vendor g = ''AMD''"
    using detect_amd_Inr [of h] by blast
  obtain i where i: "GPUDetector_detect_intel h = Inr i" "\<forall>g\<in>set i. vendor g = ''Intel''"
    using detect_intel_Inr [of h] by blast
  obtain w where w: "GPUDetector_detect_wmi h = Inr w"
      "\<forall>g\<in>set w. vendor g = ''Integrated/Discrete''"
    using detect_wmi_Inr [of h] by blast
  note s = n(1) a(1) i(1) w(1) and v = n(2) a(2) i(2) w(2)
  note d = gpu_detect_unfold [OF s]
  consider (base) "n @ a @ i \<noteq> []"
    | (wmi) "n @ a @ i = []" "WMI_AVAILABLE h \<and> startswith (sys_platform h) ''win''" "w \<noteq> []"
    | (none) "n @ a @ i = []" "\<not> (WMI_AVAILABLE h \<and> startswith (sys_platform h) ''win'' \<and> w \<noteq> [])"
    by blast
  then show ?thesis
  proof cases
    case base
    with d assms have "g \<in> set n \<or> g \<in> set a \<or> g \<in> set i" by auto
    with v have "vendor g = ''NVIDIA'' \<or> vendor g = ''AMD'' \<or> vendor g = ''Intel''" by blast
    then show ?thesis by auto
  next
    case wmi
    with d assms have "g \<in> set w" by auto
    with v have "vendor g = ''Integrated/Discrete''" by blast
    with wmi s show ?thesis by simp
  next
    case none
    with d assms have "g = no_gpu" by auto
    then have "vendor g = ''Unknown''" by (simp add: no_gpu_def)
    then show ?thesis by simp
  qed
qed

theorem gpu_vendor_set_witness:
  "\<exists>gs g. GPUDetector_detect wmi_host = Inr gs \<and> g \<in> set gs \<and>
      vendor g = ''Integrated/Discrete'' \<and> WMI_AVAILABLE wmi_host"
proof -
  have d: "GPUDetector_detect wmi_host =
     Inr [\<lparr> vendor = ''Integrated/Discrete'', gpu_name = ''NVIDIA GeForce RTX 3060'',
            vram_total_gb = 4, vram_used_gb = 0, utilization_percent = 0,
            gpu_temperature_c = None \<rparr>]"
    by (simp add: GPUDetector_detect_def GPUDetector_detect_nvidia_def GPUDetector_detect_amd_def
      GPUDetector_detect_intel_def GPUDetector_detect_wmi_def and_then_def wmi_host_def
      quiet_host_def startswith_def py_strip_def py_isspace_def Let_def)
  show ?thesis
    using gpu_vendor_set [OF d, of "\<lparr> vendor = ''Integrated/Discrete'', gpu_name = ''NVIDIA GeForce RTX 3060'',
            vram_total_gb = 4, vram_used_gb = 0, utilization_percent = 0,
            gpu_temperature_c = None \<rparr>"] d
    by simp
qed


subsection \<open>Storage type\<close>

lemma py_in_sublist: "py_in needle hay = sublist needle hay"
  by (induction hay) (simp_all add: sublist_Cons_right)

lemma py_in_lower:
  assumes "py_in needle hay" and "py_lower needle = needle"
  shows "py_in needle (py_lower hay)"
proof -
  from assms(1) obtain ps ss where "hay = ps @ needle @ ss"
    unfolding py_in_sublist sublist_def by blast
  then have "py_lower hay = py_lower ps @ needle @ py_lower ss"
    using assms(2) by (simp add: py_lower_def)
  then show ?thesis
    unfolding py_in_sublist sublist_def by blast
qed

lemma lower_nvme: "py_lower ''nvme'' = ''nvme''"
  by (simp add: py_lower_def py_lower_char_def)

lemma lower_lvm: "py_lower ''/dev/mapper/SSD-root'' = ''/dev/mapper/ssd-root''"
  by code_simp

text \<open>
  C6, amended. The classification tests the lower-cased device path.  A path that
  contains \<open>nvme\<close>, in any letter case, gives \<open>NVMe\<close> on every platform and whatever
  the rotational flag says.  Otherwise, on the Linux family, when the lower-cased path has
  a component \<open>/dev/<letters>\<close> and the rotational pseudo-file of those letters can be
  read, the content decides: \<open>0\<close> (after trimming) gives \<open>SSD\<close>, anything else
  \<open>HDD\<close>.  Otherwise (another platform, no such component, or a failed read) a
  lower-cased path that contains \<open>ssd\<close> gives \<open>SSD\<close>, and any other path
  \<open>Unknown\<close>.
\<close>

theorem disk_type_chain:
  "(py_in ''nvme'' dev \<longrightarrow> detect_disk_type h dev = Inr ''NVMe'') \<and>
   (py_in ''nvme'' (py_lower dev) \<longrightarrow> detect_disk_type h dev = Inr ''NVMe'') \<and>
   (\<not> py_in ''nvme'' (py_lower dev) \<and> startswith (sys_platform h) ''linux'' \<and>
    re_search_dev (py_lower dev) = Some base \<and> read_rotational h base = Inr content
      \<longrightarrow> detect_disk_type h dev = Inr (if py_strip content = ''0'' then ''SSD'' else ''HDD'')) \<and>
   (\<not> py_in ''nvme'' (py_lower dev) \<and>
    \<not> (startswith (sys_platform h) ''linux'' \<and>
       (\<exists>b c. re_search_dev (py_lower dev) = Some b \<and> read_rotational h b = Inr c))
      \<longrightarrow> detect_disk_type h dev =
            Inr (if py_in ''ssd'' (py_lower dev) then ''SSD'' else ''Unknown''))"
proof (intro conjI impI)
  show "detect_disk_type h dev = Inr ''NVMe''" if "py_in ''nvme'' (py_lower dev)"
    using that by (simp add: detect_disk_type_def Let_def)
  then show "detect_disk_type h dev = Inr ''NVMe''" if "py_in ''nvme'' dev"
    using that py_in_lower [OF _ lower_nvme] by blast
next
  assume "\<not> py_in ''nvme'' (py_lower dev) \<and> startswith (sys_platform h) ''linux'' \<and>
    re_search_dev (py_lower dev) = Some base \<and> read_rotational h base = Inr content"
  then show "detect_disk_type h dev = Inr (if py_strip content = ''0'' then ''SSD'' else ''HDD'')"
    by (simp add: detect_disk_type_def rotational_type_def Let_def)
next
  assume a: "\<not> py_in ''nvme'' (py_lower dev) \<and>
    \<not> (startswith (sys_platform h) ''linux'' \<and>
       (\<exists>b c. re_search_dev (py_lower dev) = Some b \<and> read_rotational h b = Inr c))"
  then have "rotational_type h (py_lower dev) = None"
    by (auto simp: rotational_type_def split: option.splits sum.splits)
  with a show "detect_disk_type h dev =
            Inr (if py_in ''ssd'' (py_lower dev) then ''SSD'' else ''Unknown'')"
    by (simp add: detect_disk_type_def Let_def)
qed

text \<open>
  C6, as stated, fails: the path \<open>/dev/mapper/SSD-root\<close> does not contain \<open>nvme\<close>,
  the read of the rotational flag of its base device fails, and it does not contain
  \<open>ssd\<close>; the result is \<open>SSD\<close>, not \<open>Unknown\<close>, since the code compares the
  lower-cased path.
\<close>

theorem disk_type_case_counterexample:
  "\<not> py_in ''nvme'' ''/dev/mapper/SSD-root'' \<and>
   startswith (sys_platform quiet_host) ''linux'' \<and>
   read_rotational quiet_host ''mapper'' = Inl FileNotFoundError \<and>
   \<not> py_in ''ssd'' ''/dev/mapper/SSD-root'' \<and>
   detect_disk_type quiet_host ''/dev/mapper/SSD-root'' = Inr ''SSD'' \<and>
   ''SSD'' \<noteq> ''Unknown''"
  by (simp add: detect_disk_type_def rotational_type_def quiet_host_def startswith_def
      lower_lvm is_az_def Let_def)

theorem disk_type_chain_witness:
  "detect_disk_type quiet_host ''/dev/nvme0n1p1'' = Inr ''NVMe'' \<and>
   detect_disk_type sda_host ''/dev/sda1'' = Inr ''SSD'' \<and>
   detect_disk_type quiet_host ''/dev/mapper/SSD-root'' = Inr ''SSD''"
proof -
  have 1: "py_in ''nvme'' ''/dev/nvme0n1p1''"
    by simp
  have 2: "\<not> py_in ''nvme'' (py_lower ''/dev/sda1'') \<and> startswith (sys_platform sda_host) ''linux'' \<and>
    re_search_dev (py_lower ''/dev/sda1'') = Some ''sda'' \<and>
    read_rotational sda_host ''sda'' = Inr (''0'' @ [CHR 0x0A])"
    by (simp add: sda_host_def quiet_host_def startswith_def py_lower_def py_lower_char_def is_az_def)
  have 3: "\<not> py_in ''nvme'' (py_lower ''/dev/mapper/SSD-root'') \<and>
    \<not> (startswith (sys_platform quiet_host) ''linux'' \<and>
       (\<exists>b c. re_search_dev (py_lower ''/dev/mapper/SSD-root'') = Some b \<and>
              read_rotational quiet_host b = Inr c))"
    by (simp add: quiet_host_def lower_lvm)
  have 4: "py_in ''ssd'' (py_lower ''/dev/mapper/SSD-root'')"
    by (simp add: lower_lvm)
  have 5: "py_strip (''0'' @ [CHR 0x0A]) = ''0''"
    by (simp add: py_strip_def py_isspace_def)
  show ?thesis
    using disk_type_chain [where dev = "''/dev/nvme0n1p1''" and h = quiet_host] 1
      disk_type_chain [where dev = "''/dev/sda1''" and h = sda_host and base = "''sda''"
        and content = "''0'' @ [CHR 0x0A]"] 2 5
      disk_type_chain [where dev = "''/dev/mapper/SSD-root''" and h = quiet_host] 3 4
    by presburger
qed


subsection \<open>Disk enumeration\<close>

lemma key_le_system:
  "disk_key a \<le> disk_key b \<Longrightarrow> is_system b \<Longrightarrow> is_system a"
  by (auto simp: disk_key_def)

lemma sorted_system_first:
  assumes "sorted (map disk_key ds)" and "i < j" and "j < length ds" and "is_system (ds ! j)"
  shows "is_system (ds ! i)"
proof -
  have "map disk_key ds ! i \<le> map disk_key ds ! j"
    using assms(1-3) by (intro sorted_nth_mono) simp_all
  then have "disk_key (ds ! i) \<le> disk_key (ds ! j)"
    using assms(2,3) by simp
  then show ?thesis using assms(4) by (rule key_le_system)
qed

lemma sorted_take3: "sorted (map disk_key (take 3 (sort_key disk_key cs)))"
proof -
  have "sorted (take 3 (map disk_key (sort_key disk_key cs)))"
    by (intro sorted_wrt_take) (rule sorted_sort_key)
  then show ?thesis by (simp add: take_map)
qed

lemma system_at_head:
  assumes "d \<in> set cs" and "is_system d"
  shows "take 3 (sort_key disk_key cs) \<noteq> [] \<and> is_system (take 3 (sort_key disk_key cs) ! 0)"
proof -
  define ss where "ss = sort_key disk_key cs"
  have "d \<in> set ss" using assms(1) by (simp add: ss_def)
  then obtain j where j: "j < length ss" "ss ! j = d"
    by (auto simp: in_set_conv_nth)
  have srt: "sorted (map disk_key ss)"
    unfolding ss_def by (rule sorted_sort_key)
  have ne: "ss \<noteq> []" using j(1) by auto
  have "is_system (ss ! 0)"
  proof (cases "j = 0")
    case True
    with j assms(2) show ?thesis by simp
  next
    case False
    then have "0 < j" by simp
    from sorted_system_first [OF srt this j(1)] j(2) assms(2) show ?thesis by simp
  qed
  with ne show ?thesis
    unfolding ss_def [symmetric] by (cases ss) simp_all
qed

lemma two_disk_collect:
  "collect_disks two_disk_host
     [\<lparr> device = ''/dev/sdb1'', mountpoint = ''/home'', fstype = ''ext4'', opts = ''rw'' \<rparr>,
      \<lparr> device = ''/dev/loop0'', mountpoint = ''/snap/core'', fstype = ''squashfs'', opts = ''ro'' \<rparr>,
      \<lparr> device = ''/dev/sdc1'', mountpoint = ''/mnt/locked'', fstype = ''ext4'', opts = ''rw'' \<rparr>,
      \<lparr> device = ''/dev/nvme0n1p2'', mountpoint = ''/'', fstype = ''ext4'', opts = ''rw'' \<rparr>]
   = Inr [home_disk, root_disk]"
  by (simp add: two_disk_host_def quiet_host_def and_then_def detect_disk_type_def
      rotational_type_def startswith_def py_lower_def py_lower_char_def is_az_def
      system_mount_def home_disk_def root_disk_def Let_def)

lemma disk_key_eq: "disk_key = (\<lambda>d. (\<not> is_system d, d_mountpoint d))"
  by (simp add: fun_eq_iff disk_key_def)

lemma key_le_mount:
  "disk_key a \<le> disk_key b \<Longrightarrow> is_system a = is_system b \<Longrightarrow> d_mountpoint a \<le> d_mountpoint b"
  by (auto simp: disk_key_def)

lemma sorted_key_pair:
  assumes "sorted (map disk_key ds)" and "i < j" and "j < length ds"
  shows "disk_key (ds ! i) \<le> disk_key (ds ! j)"
proof -
  have "map disk_key ds ! i \<le> map disk_key ds ! j"
    using assms by (intro sorted_nth_mono) simp_all
  then show ?thesis using assms(2,3) by simp
qed

lemma collect_disks_system:
  assumes "collect_disks h ps = Inr cs" and "p \<in> set ps"
    and "fstype p \<noteq> []" and "\<not> py_in ''loop'' (device p)"
    and "disk_usage h (mountpoint p) = Inr u" and "system_mount p"
  shows "\<exists>d\<in>set cs. is_system d \<and> d_mountpoint d = mountpoint p"
  using assms(1,2)
proof (induction ps arbitrary: cs)
  case Nil
  then show ?case by simp
next
  case (Cons q ps)
  show ?case
  proof (cases "fstype q = [] \<or> py_in ''loop'' (device q)")
    case True
    with Cons.prems assms(3,4) have "collect_disks h ps = Inr cs" and "p \<in> set ps"
      by auto
    then show ?thesis by (rule Cons.IH)
  next
    case False
    show ?thesis
    proof (cases "disk_usage h (mountpoint q)")
      case (Inl e)
      with False Cons.prems(1) have c: "collect_disks h ps = Inr cs"
        by (simp split: if_splits)
      from Inl assms(5) have "q \<noteq> p" by auto
      with Cons.prems(2) have "p \<in> set ps" by simp
      with c show ?thesis by (rule Cons.IH)
    next
      case (Inr v)
      obtain a b c d where v: "v = (a, b, c, d)" by (cases v)
      from Cons.prems(1) False Inr v obtain t rest where
        t: "detect_disk_type h (device q) = Inr t" and
        r: "collect_disks h ps = Inr rest" and
        cs: "cs = \<lparr> d_mountpoint = mountpoint q, d_device = device q, d_fstype = fstype q,
                      total_bytes = a, used_bytes = b, free_bytes = c,
                      percent = d, disk_type = t,
                      is_system = system_mount q, benchmark = None \<rparr> # rest"
        by (auto simp: and_then_def split: sum.splits)
      show ?thesis
      proof (cases "q = p")
        case True
        with cs assms(6) show ?thesis by simp
      next
        case False
        with Cons.prems(2) have "p \<in> set ps" by simp
        from Cons.IH [OF r this] cs show ?thesis by auto
      qed
    qed
  qed
qed

lemma tie_collect:
  "collect_disks tie_host
     [\<lparr> device = ''/dev/sdb1'', mountpoint = ''/mnt/b'', fstype = ''ext4'', opts = ''rw'' \<rparr>,
      \<lparr> device = ''/dev/sdc1'', mountpoint = ''/mnt/a'', fstype = ''ext4'', opts = ''rw'' \<rparr>,
      \<lparr> device = ''/dev/sda1'', mountpoint = ''/'', fstype = ''ext4'', opts = ''rw'' \<rparr>,
      \<lparr> device = ''/dev/sdd1'', mountpoint = ''/srv'', fstype = ''ext4'', opts = ''rw'' \<rparr>]
   = Inr [plain_disk ''/dev/sdb1'' ''/mnt/b'' False, plain_disk ''/dev/sdc1'' ''/mnt/a'' False,
          plain_disk ''/dev/sda1'' ''/'' True, plain_disk ''/dev/sdd1'' ''/srv'' False]"
  by (simp add: tie_host_def quiet_host_def and_then_def detect_disk_type_def
      rotational_type_def startswith_def py_lower_def py_lower_char_def is_az_def
      system_mount_def plain_disk_def Let_def)

lemma tie_sorted:
  "take 3 (sort_key disk_key
     [plain_disk ''/dev/sdb1'' ''/mnt/b'' False, plain_disk ''/dev/sdc1'' ''/mnt/a'' False,
      plain_disk ''/dev/sda1'' ''/'' True, plain_disk ''/dev/sdd1'' ''/srv'' False])
   = [plain_disk ''/dev/sda1'' ''/'' True, plain_disk ''/dev/sdc1'' ''/mnt/a'' False,
      plain_disk ''/dev/sdb1'' ''/mnt/b'' False]"
  by (simp add: disk_key_def plain_disk_def)

text \<open>
  C5. An enumerated volume is a partition that the loop collected: one with a file system
  type, not a loop device, and whose usage could be read.  When the partitions can be
  listed and the loop returns the collected disks, \<open>DiskDetector.detect\<close> returns at
  most 3 entries, and they are the first entries of an arrangement of the collected disks
  that is ascending in the key \<open>(not is_system, mountpoint)\<close> and keeps disks of equal
  key in their order of collection.  So within the result every system volume precedes
  every non-system volume, and two volumes of the same kind are in lexicographic order of
  their mount paths.  When a collected disk is a system volume (equally: when a partition
  that passes the filter and whose usage can be read is a system mount), the result is
  not empty and its entry at index 0 is a system volume.
\<close>

theorem disk_detect_sorted:
  assumes "disk_partitions h = Inr ps" and "collect_disks h ps = Inr cs"
  shows "\<exists>ds rest. DiskDetector_detect h = Inr ds \<and>
           length ds \<le> 3 \<and> length ds = min 3 (length cs) \<and>
           mset (ds @ rest) = mset cs \<and>
           sorted (map (\<lambda>d. (\<not> is_system d, d_mountpoint d)) (ds @ rest)) \<and>
           (\<forall>k. filter (\<lambda>d. (\<not> is_system d, d_mountpoint d) = k) (ds @ rest)
                  = filter (\<lambda>d. (\<not> is_system d, d_mountpoint d) = k) cs) \<and>
           (\<forall>i j. i < j \<and> j < length ds \<longrightarrow>
              (is_system (ds ! j) \<longrightarrow> is_system (ds ! i)) \<and>
              (is_system (ds ! i) = is_system (ds ! j)
                 \<longrightarrow> d_mountpoint (ds ! i) \<le> d_mountpoint (ds ! j))) \<and>
           ((\<exists>d\<in>set cs. is_system d) \<longrightarrow> ds \<noteq> [] \<and> is_system (ds ! 0)) \<and>
           ((\<exists>p\<in>set ps. fstype p \<noteq> [] \<and> \<not> py_in ''loop'' (device p) \<and>
                (\<exists>u. disk_usage h (mountpoint p) = Inr u) \<and> system_mount p)
              \<longrightarrow> ds \<noteq> [] \<and> is_system (ds ! 0))"
proof -
  define ss where "ss = sort_key disk_key cs"
  define ds where "ds = take 3 ss"
  define rest where "rest = drop 3 ss"
  have app: "ds @ rest = ss" by (simp add: ds_def rest_def)
  have d: "DiskDetector_detect h = Inr ds"
    by (simp add: DiskDetector_detect_def and_then_def assms ds_def ss_def)
  have l: "length ds \<le> 3" "length ds = min 3 (length cs)"
    by (simp_all add: ds_def ss_def min.commute)
  have m: "mset (ds @ rest) = mset cs"
    unfolding app ss_def by simp
  have srt: "sorted (map disk_key ss)"
    unfolding ss_def by (rule sorted_sort_key)
  then have s: "sorted (map (\<lambda>d. (\<not> is_system d, d_mountpoint d)) (ds @ rest))"
    unfolding app disk_key_eq .
  have st: "\<forall>k. filter (\<lambda>d. (\<not> is_system d, d_mountpoint d) = k) (ds @ rest)
                  = filter (\<lambda>d. (\<not> is_system d, d_mountpoint d) = k) cs"
    unfolding app ss_def disk_key_eq by (simp add: sort_key_stable)
  have sd: "sorted (map disk_key ds)"
    unfolding ds_def ss_def by (rule sorted_take3)
  have f: "\<forall>i j. i < j \<and> j < length ds \<longrightarrow>
              (is_system (ds ! j) \<longrightarrow> is_system (ds ! i)) \<and>
              (is_system (ds ! i) = is_system (ds ! j)
                 \<longrightarrow> d_mountpoint (ds ! i) \<le> d_mountpoint (ds ! j))"
    using sorted_key_pair [OF sd] key_le_system key_le_mount by blast
  have z: "(\<exists>d\<in>set cs. is_system d) \<longrightarrow> ds \<noteq> [] \<and> is_system (ds ! 0)"
    unfolding ds_def ss_def using system_at_head by blast
  have y: "(\<exists>p\<in>set ps. fstype p \<noteq> [] \<and> \<not> py_in ''loop'' (device p) \<and>
                (\<exists>u. disk_usage h (mountpoint p) = Inr u) \<and> system_mount p)
              \<longrightarrow> ds \<noteq> [] \<and> is_system (ds ! 0)"
    using collect_disks_system [OF assms(2)] z by blast
  from d l m s st f z y show ?thesis by blast
qed

theorem disk_detect_sorted_witness:
  "DiskDetector_detect tie_host =
     Inr [plain_disk ''/dev/sda1'' ''/'' True, plain_disk ''/dev/sdc1'' ''/mnt/a'' False,
          plain_disk ''/dev/sdb1'' ''/mnt/b'' False] \<and>
   is_system (plain_disk ''/dev/sda1'' ''/'' True) \<and>
   d_mountpoint (plain_disk ''/dev/sdc1'' ''/mnt/a'' False)
     \<le> d_mountpoint (plain_disk ''/dev/sdb1'' ''/mnt/b'' False)"
proof -
  have p: "disk_partitions tie_host = Inr
     [\<lparr> device = ''/dev/sdb1'', mountpoint = ''/mnt/b'', fstype = ''ext4'', opts = ''rw'' \<rparr>,
      \<lparr> device = ''/dev/sdc1'', mountpoint = ''/mnt/a'', fstype = ''ext4'', opts = ''rw'' \<rparr>,
      \<lparr> device = ''/dev/sda1'', mountpoint = ''/'', fstype = ''ext4'', opts = ''rw'' \<rparr>,
      \<lparr> device = ''/dev/sdd1'', mountpoint = ''/srv'', fstype = ''ext4'', opts = ''rw'' \<rparr>]"
    by (simp add: tie_host_def quiet_host_def)
  have e: "DiskDetector_detect tie_host =
     Inr [plain_disk ''/dev/sda1'' ''/'' True, plain_disk ''/dev/sdc1'' ''/mnt/a'' False,
          plain_disk ''/dev/sdb1'' ''/mnt/b'' False]"
    by (simp only: DiskDetector_detect_def and_then_def p sum.case tie_collect tie_sorted)
  from disk_detect_sorted [OF p tie_collect] obtain ds rest where
    d: "DiskDetector_detect tie_host = Inr ds" and
    f: "\<forall>i j. i < j \<and> j < length ds \<longrightarrow>
              (is_system (ds ! j) \<longrightarrow> is_system (ds ! i)) \<and>
              (is_system (ds ! i) = is_system (ds ! j)
                 \<longrightarrow> d_mountpoint (ds ! i) \<le> d_mountpoint (ds ! j))" and
    z: "(\<exists>d\<in>set [plain_disk ''/dev/sdb1'' ''/mnt/b'' False, plain_disk ''/dev/sdc1'' ''/mnt/a'' False,
          plain_disk ''/dev/sda1'' ''/'' True, plain_disk ''/dev/sdd1'' ''/srv'' False]. is_system d)
        \<longrightarrow> ds \<noteq> [] \<and> is_system (ds ! 0)"
    by blast
  from d e have ds: "ds = [plain_disk ''/dev/sda1'' ''/'' True, plain_disk ''/dev/sdc1'' ''/mnt/a'' False,
          plain_disk ''/dev/sdb1'' ''/mnt/b'' False]"
    by simp
  have s: "is_system (plain_disk ''/dev/sda1'' ''/'' True)"
    using z unfolding ds by (simp add: plain_disk_def)
  have "1 < (2::nat) \<and> 2 < length ds" unfolding ds by simp
  with f have "is_system (ds ! 1) = is_system (ds ! 2)
                 \<longrightarrow> d_mountpoint (ds ! 1) \<le> d_mountpoint (ds ! 2)"
    by blast
  then have t: "d_mountpoint (plain_disk ''/dev/sdc1'' ''/mnt/a'' False)
     \<le> d_mountpoint (plain_disk ''/dev/sdb1'' ''/mnt/b'' False)"
    unfolding ds by (simp add: plain_disk_def)
  from e s t show ?thesis by blast
qed


subsection \<open>The disk benchmark\<close>

text \<open>
  On every other path the file is gone after the call, provided \<open>os.remove\<close> succeeds.
\<close>

lemma benchmark_cleans_up:
  assumes "\<not> (alloc_fails bh = None \<and> open_fails bh = None \<and> write_fails bh = None \<and>
              clock bh 1 - clock bh 0 > real_of_int timeout)"
    and "remove_fails bh 0 = None"
  shows "os_path_join (case path of None \<Rightarrow> home bh | Some p \<Rightarrow> p) ''.llm_neofetch_benchmark.tmp''
           \<notin> snd (benchmark_speed bh files path size_mb timeout)"
  using assms by (auto simp: benchmark_speed_def bench_cleanup_def Let_def)

text \<open>
  C4 says that the temporary file no longer exists after any call of
  \<open>benchmark_speed\<close>.  The code removes it after a successful read, and in its exception
  handler; the return taken when the write alone exceeded the timeout does neither.  On a
  disk where writing takes 31 seconds, a call with the default timeout of 30 returns
  \<open>None\<close> and leaves the file in the target directory.
\<close>

theorem benchmark_timeout_leaves_file:
  "benchmark_speed slow_disk {} (Some ''/tmp'') 100 30
     = (None, {''/tmp/.llm_neofetch_benchmark.tmp''})"
  by (simp add: benchmark_speed_def slow_disk_def os_path_join_def Let_def)


subsection \<open>Probe boundaries\<close>






















end
